theory Spec2Isabelle
  imports Main "HOL-Library.Sublist"
begin

section \<open>Migration of Bitbucket snippets to Bookstack: the data model\<close>

text \<open>
  The script \<^verbatim>\<open>migrate_bitbucket_snippets_to_bookstack.py\<close> talks to two remote
  systems through \<^verbatim>\<open>make_request\<close>, which catches every request error and returns
  \<^verbatim>\<open>None\<close> for it. The remote systems are not part of the program: they are a state
  \<open>'w\<close> that every request reads and may change, so each request is a function
  \<open>'w \<Rightarrow> result \<times> 'w\<close>, about which nothing is assumed.

  What \<^verbatim>\<open>make_request\<close> returns is given the type that the caller inspects. It is
  \<^verbatim>\<open>None\<close> (the first constructor of each answer type), or the body as a string when
  the answer is not JSON (a \<^verbatim>\<open>TextAnswer\<close>, \<^verbatim>\<open>TextResponse\<close> or \<^verbatim>\<open>PagesText\<close>), or
  decoded JSON. A JSON object is a record of the keys the script reads, and each key
  that the script reads with \<^verbatim>\<open>.get\<close> or tests with \<^verbatim>\<open>in\<close> is an option. On a
  string, \<^verbatim>\<open>'id' in x\<close> is a substring test and \<^verbatim>\<open>x['id']\<close> raises \<^verbatim>\<open>TypeError\<close>,
  which nothing catches: the script ends there, with a traceback and the exit status 1.

  The limits of the model: decoded JSON has the shape the two APIs document (a commit has
  its \<^verbatim>\<open>hash\<close>, a listed book or page its \<^verbatim>\<open>id\<close>, the values have the documented
  types); a false JSON value is not kept apart from \<^verbatim>\<open>None\<close>; and \<^verbatim>\<open>main\<close> is modelled
  from the fetch of the snippets on. Identifiers are integers, and the script tests them
  for truth, so 0 is kept apart from the others.
\<close>

text \<open>A Python variable that holds \<^verbatim>\<open>None\<close> or an integer identifier.\<close>

type_synonym pyid = "int option"

text \<open>Python truthiness of such a variable (\<^verbatim>\<open>if page_id\<close>): \<^verbatim>\<open>None\<close> and \<^verbatim>\<open>0\<close> are false.\<close>

definition truthy :: "pyid \<Rightarrow> bool" where
  "truthy v = (case v of None \<Rightarrow> False | Some i \<Rightarrow> i \<noteq> 0)"

text \<open>Truthiness of a variable that holds \<^verbatim>\<open>None\<close> or a string: the empty string is false.\<close>

definition truthy_str :: "string option \<Rightarrow> bool" where
  "truthy_str v = (case v of None \<Rightarrow> False | Some s \<Rightarrow> s \<noteq> [])"

text \<open>\<^verbatim>\<open>d.get(key, default)\<close> on a key that may be missing.\<close>

definition get_default :: "'a option \<Rightarrow> 'a \<Rightarrow> 'a" where
  "get_default v d = (case v of None \<Rightarrow> d | Some x \<Rightarrow> x)"

text \<open>The exception that the script can raise on an answer that is a string.\<close>

datatype error = TypeError

text \<open>
  How a part of the script ends, when it ends: it returns a value, or an exception leaves
  it. Both come with the state of the remote systems at that point.
\<close>

datatype ('a, 'w) run = Done 'a 'w | Crash error 'w

text \<open>\<^verbatim>\<open>x and key in x\<close> for a string \<open>x\<close>: it is not empty and \<open>key\<close> is a substring.\<close>

definition text_has :: "string \<Rightarrow> string \<Rightarrow> bool" where
  "text_has x key = (x \<noteq> [] \<and> sublist key x)"

text \<open>
  What \<^verbatim>\<open>make_request\<close> returns where one JSON object is expected: \<^verbatim>\<open>None\<close> (or a
  false value), the body of an answer that is not JSON, or the object.
\<close>

datatype 'a answer = NoAnswer | TextAnswer string | JsonAnswer 'a

text \<open>
  A commit of the source API: \<^verbatim>\<open>commit['hash']\<close> is read unconditionally; \<open>date\<close>,
  \<open>message\<close> and \<open>author_raw\<close> (\<^verbatim>\<open>commit.get('author', {}).get('raw', ...)\<close>) may be missing.
\<close>

record commit =
  hash :: string
  date :: "string option"
  message :: "string option"
  author_raw :: "string option"

text \<open>
  A snippet object, as the listing and the single-snippet endpoint return it. The keys the
  script reads: \<open>id\<close> and \<open>title\<close> (summary), \<open>files\<close> (the names, in the dictionary's order)
  and \<open>updated_on\<close> (details).
\<close>

record snippet =
  snippet_ident :: "string option"
  title :: "string option"
  files :: "string list option"
  updated_on :: "string option"

text \<open>
  An element of the list of snippets that \<^verbatim>\<open>main\<close> iterates over: an object, or the
  string that the request for one snippet returned.
\<close>

datatype snippet_item = SnippetObject snippet | SnippetText string

text \<open>A book and a page of a destination listing: \<^verbatim>\<open>.get('name')\<close> and \<^verbatim>\<open>['id']\<close>.\<close>

record book =
  book_name :: "string option"
  book_ident :: int

record page =
  page_name :: "string option"
  page_ident :: int

text \<open>
  What \<^verbatim>\<open>make_request\<close> returns for one page of a cursor-linked listing:
  \<^verbatim>\<open>None\<close> (transport error, HTTP error status, undecodable JSON), a value that is not
  a dictionary with a \<^verbatim>\<open>values\<close> key, or a dictionary with \<^verbatim>\<open>data['values']\<close> and
  \<^verbatim>\<open>data.get('next')\<close>.
\<close>

datatype 'a page_response =
    RequestFailed
  | NoItemsKey
  | ItemsPage "'a list" "string option"

text \<open>
  What \<^verbatim>\<open>make_request\<close> returns for a create or an update call: \<open>NoResponse\<close> is
  \<^verbatim>\<open>None\<close> or a false value, \<open>Response i\<close> a true JSON object with its \<^verbatim>\<open>id\<close> key, if
  any, \<open>TextResponse\<close> the body of an answer that is not JSON.
\<close>

datatype response = NoResponse | Response pyid | TextResponse string

text \<open>
  \<^verbatim>\<open>created_page and 'id' in created_page\<close> holds in two cases. The answer is an object
  with the key \<^verbatim>\<open>id\<close>: this is \<open>has_id\<close>, and \<^verbatim>\<open>created_page['id']\<close> is \<open>id_of\<close>. Or the
  answer is a string that contains \<open>id\<close>: this is \<open>raises_on_id\<close>, and
  \<^verbatim>\<open>created_page['id']\<close> raises \<^verbatim>\<open>TypeError\<close>.
\<close>

fun has_id :: "response \<Rightarrow> bool" where
  "has_id NoResponse = False"
| "has_id (Response None) = False"
| "has_id (Response (Some i)) = True"
| "has_id (TextResponse x) = False"

fun raises_on_id :: "response \<Rightarrow> bool" where
  "raises_on_id (TextResponse x) = text_has x ''id''"
| "raises_on_id r = False"

fun id_of :: "response \<Rightarrow> pyid" where
  "id_of NoResponse = None"
| "id_of (Response v) = v"
| "id_of (TextResponse x) = None"

text \<open>\<^verbatim>\<open>if not updated_page\<close>: \<^verbatim>\<open>None\<close>, a false value, the empty string.\<close>

fun falsy_response :: "response \<Rightarrow> bool" where
  "falsy_response NoResponse = True"
| "falsy_response (Response v) = False"
| "falsy_response (TextResponse x) = (x = [])"

text \<open>
  The answer to the page listing of a book (\<^verbatim>\<open>GET api/pages\<close> with \<^verbatim>\<open>book_id\<close>,
  \<^verbatim>\<open>count\<close>, \<^verbatim>\<open>offset\<close>): \<^verbatim>\<open>None\<close>, an object without a \<^verbatim>\<open>data\<close> key (or a false
  value), \<^verbatim>\<open>response['data']\<close> with \<^verbatim>\<open>response.get('total')\<close>, or the body of an
  answer that is not JSON.
\<close>

datatype pages_response =
    PagesRequestFailed
  | PagesNoData
  | PagesData "page list" "int option"
  | PagesText string

text \<open>
  The requests the script sends, one field for each place that calls \<^verbatim>\<open>make_request\<close>.
  \<open>snippets_url\<close> and \<open>commits_url\<close> stand for the \<^verbatim>\<open>urljoin\<close>/\<^verbatim>\<open>quote\<close> expressions
  that build the first URL of a listing.
\<close>

record 'w remote =
  snippets_url :: "string \<Rightarrow> string"
  commits_url :: "string \<Rightarrow> string \<Rightarrow> string"
  get_snippets_page :: "string \<Rightarrow> 'w \<Rightarrow> snippet page_response \<times> 'w"
  get_commits_page :: "string \<Rightarrow> 'w \<Rightarrow> commit page_response \<times> 'w"
  get_snippet :: "string \<Rightarrow> string \<Rightarrow> 'w \<Rightarrow> snippet answer \<times> 'w"
  get_file :: "string \<Rightarrow> string \<Rightarrow> string \<Rightarrow> string \<Rightarrow> 'w \<Rightarrow> string option \<times> 'w"
  get_books :: "string \<Rightarrow> 'w \<Rightarrow> book list answer \<times> 'w"
  post_book :: "string \<Rightarrow> 'w \<Rightarrow> response \<times> 'w"
  get_pages :: "pyid \<Rightarrow> nat \<Rightarrow> nat \<Rightarrow> 'w \<Rightarrow> pages_response \<times> 'w"
  post_page :: "pyid \<Rightarrow> string \<Rightarrow> string \<Rightarrow> 'w \<Rightarrow> response \<times> 'w"
  put_page :: "pyid \<Rightarrow> string \<Rightarrow> string \<Rightarrow> 'w \<Rightarrow> response \<times> 'w"

text \<open>The command line: the arguments that \<^verbatim>\<open>main\<close> branches on.\<close>

record args =
  bb_user :: string
  bb_workspace :: "string option"
  skip_existing_books :: bool
  skip_existing_pages :: bool
  test_snippet_id :: "string option"

section \<open>The paginated fetcher\<close>

text \<open>
  \<^verbatim>\<open>get_paginated_results\<close>: the loop \<^verbatim>\<open>while next_url\<close>. The server chooses every next
  URL, so the loop need not end: not returning is the value \<open>None\<close> of the outer option.
  The inner option is Python's result: \<open>None\<close> for the failure it propagates, the list
  otherwise.
\<close>

partial_function (option) paginate ::
  "(string \<Rightarrow> 'w \<Rightarrow> 'a page_response \<times> 'w) \<Rightarrow> string option \<Rightarrow> 'a list \<Rightarrow> 'w
    \<Rightarrow> ('a list option \<times> 'w) option"
where
  "paginate request next_url results w =
     (case next_url of
        None \<Rightarrow> Some (Some results, w)
      | Some url \<Rightarrow>
          if url = [] then Some (Some results, w)
          else (case request url w of
              (RequestFailed, w') \<Rightarrow> Some (None, w')
            | (NoItemsKey, w') \<Rightarrow> Some (Some results, w')
            | (ItemsPage vs nxt, w') \<Rightarrow> paginate request nxt (results @ vs) w'))"

definition get_paginated_results ::
  "(string \<Rightarrow> 'w \<Rightarrow> 'a page_response \<times> 'w) \<Rightarrow> string \<Rightarrow> 'w \<Rightarrow> ('a list option \<times> 'w) option"
where
  "get_paginated_results request url w = paginate request (Some url) [] w"

section \<open>The source API\<close>

text \<open>
  \<^verbatim>\<open>get_bitbucket_snippets\<close>: with a specific identifier, one request whose result is
  wrapped in a list if it is a true value (\<^verbatim>\<open>[snippet_data] if snippet_data else []\<close>),
  be it an object or a string; otherwise the listing, or \<^verbatim>\<open>None\<close> when the listing
  failed.
\<close>

definition get_bitbucket_snippets ::
  "'w remote \<Rightarrow> string \<Rightarrow> string option \<Rightarrow> 'w \<Rightarrow> (snippet_item list option \<times> 'w) option"
where
  "get_bitbucket_snippets R workspace specific_snippet_id w =
     (if truthy_str specific_snippet_id then
        (case get_snippet R workspace (get_default specific_snippet_id []) w of
           (NoAnswer, w') \<Rightarrow> Some (Some [], w')
         | (TextAnswer x, w') \<Rightarrow> Some (Some (if x = [] then [] else [SnippetText x]), w')
         | (JsonAnswer snippet_data, w') \<Rightarrow> Some (Some [SnippetObject snippet_data], w'))
      else
        (case get_paginated_results (get_snippets_page R) (snippets_url R workspace) w of
           None \<Rightarrow> None
         | Some (None, w') \<Rightarrow> Some (None, w')
         | Some (Some snippets, w') \<Rightarrow> Some (Some (map SnippetObject snippets), w')))"

definition get_snippet_details ::
  "'w remote \<Rightarrow> string \<Rightarrow> string \<Rightarrow> 'w \<Rightarrow> snippet answer \<times> 'w"
where
  "get_snippet_details R workspace sid w = get_snippet R workspace sid w"

text \<open>\<^verbatim>\<open>get_snippet_commits\<close>: the listing, reversed; a failed listing stays \<^verbatim>\<open>None\<close>.\<close>

definition get_snippet_commits ::
  "'w remote \<Rightarrow> string \<Rightarrow> string \<Rightarrow> 'w \<Rightarrow> (commit list option \<times> 'w) option"
where
  "get_snippet_commits R workspace sid w =
     (case get_paginated_results (get_commits_page R) (commits_url R workspace sid) w of
        None \<Rightarrow> None
      | Some (None, w') \<Rightarrow> Some (None, w')
      | Some (Some commits, w') \<Rightarrow> Some (Some (rev commits), w'))"

text \<open>
  \<^verbatim>\<open>get_snippet_revision_content\<close>: the raw text, or \<^verbatim>\<open>None\<close> for a 404 and for every
  other failure. With \<^verbatim>\<open>expect_json=False\<close> the request returns \<^verbatim>\<open>response.text\<close>, a
  string, so the decoding branch is never taken.
\<close>

definition get_snippet_revision_content ::
  "'w remote \<Rightarrow> string \<Rightarrow> string \<Rightarrow> string \<Rightarrow> string \<Rightarrow> 'w \<Rightarrow> string option \<times> 'w"
where
  "get_snippet_revision_content R workspace sid commit_hash file_path w =
     (case get_file R workspace sid commit_hash file_path w of
        (None, w') \<Rightarrow> (None, w')
      | (Some content, w') \<Rightarrow> (Some content, w'))"

section \<open>The destination API\<close>

text \<open>
  \<^verbatim>\<open>find_bookstack_book\<close>: the first book of the answer whose name is the one asked for.
  The test is \<^verbatim>\<open>response and 'data' in response and response['data']\<close>: on a string
  that contains \<open>data\<close> the subscript raises.
\<close>

definition find_bookstack_book ::
  "'w remote \<Rightarrow> string \<Rightarrow> 'w \<Rightarrow> (book option, 'w) run"
where
  "find_bookstack_book R name w =
     (case get_books R name w of
        (NoAnswer, w') \<Rightarrow> Done None w'
      | (TextAnswer x, w') \<Rightarrow> if text_has x ''data'' then Crash TypeError w' else Done None w'
      | (JsonAnswer data, w') \<Rightarrow> Done (find (\<lambda>b. book_name b = Some name) data) w')"

definition create_bookstack_book ::
  "'w remote \<Rightarrow> string \<Rightarrow> 'w \<Rightarrow> response \<times> 'w"
where
  "create_bookstack_book R name w = post_book R name w"

text \<open>
  \<^verbatim>\<open>find_bookstack_page\<close>: the loop \<^verbatim>\<open>while True\<close> over batches of 100. It ends when a
  request fails, when a batch is empty, when the page is found, or when \<^verbatim>\<open>total\<close> is
  reached; a server that never says so keeps it running (the outer option). On a string
  the test \<^verbatim>\<open>not response or 'data' not in response\<close> leaves the loop unless the string
  contains \<open>data\<close>, and then \<^verbatim>\<open>response['data']\<close> raises.
\<close>

partial_function (option) find_page_loop ::
  "'w remote \<Rightarrow> pyid \<Rightarrow> string \<Rightarrow> nat \<Rightarrow> 'w \<Rightarrow> (page option, 'w) run option"
where
  "find_page_loop R book_id name offset w =
     (case get_pages R book_id 100 offset w of
        (PagesRequestFailed, w') \<Rightarrow> Some (Done None w')
      | (PagesNoData, w') \<Rightarrow> Some (Done None w')
      | (PagesText x, w') \<Rightarrow>
          if text_has x ''data'' then Some (Crash TypeError w') else Some (Done None w')
      | (PagesData current_pages total_count, w') \<Rightarrow>
          if current_pages = [] then Some (Done None w')
          else (case find (\<lambda>p. page_name p = Some name) current_pages of
              Some p \<Rightarrow> Some (Done (Some p) w')
            | None \<Rightarrow>
                if get_default total_count 0 \<le> int (offset + length current_pages)
                then Some (Done None w')
                else find_page_loop R book_id name (offset + length current_pages) w'))"

definition find_bookstack_page ::
  "'w remote \<Rightarrow> pyid \<Rightarrow> string \<Rightarrow> 'w \<Rightarrow> (page option, 'w) run option"
where
  "find_bookstack_page R book_id name w = find_page_loop R book_id name 0 w"

text \<open>\<^verbatim>\<open>create_bookstack_page\<close>: \<^verbatim>\<open>commit_info\<close> is printed, not sent.\<close>

definition create_bookstack_page ::
  "'w remote \<Rightarrow> pyid \<Rightarrow> string \<Rightarrow> string \<Rightarrow> string \<Rightarrow> 'w \<Rightarrow> response \<times> 'w"
where
  "create_bookstack_page R book_id name content info w = post_page R book_id name content w"

definition update_bookstack_page ::
  "'w remote \<Rightarrow> pyid \<Rightarrow> string \<Rightarrow> string \<Rightarrow> 'w \<Rightarrow> response \<times> 'w"
where
  "update_bookstack_page R page_id content info w =
     put_page R page_id content (''Update from Bitbucket ('' @ info @ '')'') w"

section \<open>The page synchronizer: one file, one commit\<close>

text \<open>
  The variables of the loop over the commits of one file: \<^verbatim>\<open>page_id\<close>,
  \<^verbatim>\<open>page_created_in_this_run\<close>, \<^verbatim>\<open>processed_first_commit_for_page\<close> and
  \<^verbatim>\<open>previous_page_content\<close>.
\<close>

record cursor =
  page_id :: pyid
  page_created_in_this_run :: bool
  processed_first_commit_for_page :: bool
  previous_page_content :: "string option"

text \<open>Their values before the first commit; \<open>pid\<close> is the identifier of the page found.\<close>

definition initial_cursor :: "pyid \<Rightarrow> cursor" where
  "initial_cursor pid =
     \<lparr>page_id = pid, page_created_in_this_run = False,
      processed_first_commit_for_page = False, previous_page_content = None\<rparr>"

text \<open>
  What one iteration did. A destination call is recorded with its arguments (the book or
  page identifier, the page name, the content, \<^verbatim>\<open>commit_info\<close>) and its answer.
\<close>

datatype action =
    SkipRevision
  | CreateCall pyid string string string response
  | UpdateCall pyid string string response
  | NoChange
  | ResetFlag
  | NoBranch

fun is_create :: "action \<Rightarrow> bool" where
  "is_create (CreateCall b n c i r) = True"
| "is_create a = False"

fun is_update :: "action \<Rightarrow> bool" where
  "is_update (UpdateCall p c i r) = True"
| "is_update a = False"

definition is_call :: "action \<Rightarrow> bool" where
  "is_call a = (is_create a \<or> is_update a)"

text \<open>
  A create call whose answer gave no identifier: the iteration that leaves the loop, by
  \<^verbatim>\<open>break\<close> or, when \<open>raised\<close>, by the \<^verbatim>\<open>TypeError\<close> of \<^verbatim>\<open>created_page['id']\<close>.
\<close>

fun is_failed_create :: "action \<Rightarrow> bool" where
  "is_failed_create (CreateCall b n c i r) = (\<not> has_id r)"
| "is_failed_create a = False"

fun raised :: "action \<Rightarrow> bool" where
  "raised (CreateCall b n c i r) = raises_on_id r"
| "raised a = False"

text \<open>An update call whose answer was a false value: the loop reports it and goes on.\<close>

fun is_failed_update :: "action \<Rightarrow> bool" where
  "is_failed_update (UpdateCall p c i r) = falsy_response r"
| "is_failed_update a = False"

text \<open>The f-string \<^verbatim>\<open>commit_info\<close>.\<close>

definition commit_info :: "commit \<Rightarrow> string" where
  "commit_info c =
     ''Commit '' @ take 7 (hash c) @ '' by '' @ get_default (author_raw c) ''Unknown author''
       @ '' on '' @ get_default (date c) ''Unknown Date''
       @ ''. Msg: '' @ get_default (message c) ''No message''"

text \<open>\<^verbatim>\<open>header_info = f"\n\n"\<close>: two line feeds, and nothing of the commit.\<close>

definition header_info :: "commit \<Rightarrow> string" where
  "header_info c = [CHR 0x0A, CHR 0x0A]"

text \<open>
  The body of \<^verbatim>\<open>for i, commit in enumerate(commits)\<close>. The last component says whether
  the loop goes on: \<^verbatim>\<open>continue\<close> and the end of the body are \<open>True\<close>; \<^verbatim>\<open>break\<close>
  after a failed create is \<open>False\<close>, and so is the exception raised on a create answer
  that is a string with \<open>id\<close> in it, which ends the loop and the run (the action
  recorded is then \<open>raised\<close>).
\<close>

definition apply_commit ::
  "'w remote \<Rightarrow> string \<Rightarrow> string \<Rightarrow> pyid \<Rightarrow> string \<Rightarrow> commit \<Rightarrow> cursor \<Rightarrow> 'w
    \<Rightarrow> action \<times> cursor \<times> 'w \<times> bool"
where
  "apply_commit R workspace sid book_id filename c cur w =
     (case get_snippet_revision_content R workspace sid (hash c) filename w of
        (None, w1) \<Rightarrow> (SkipRevision, cur, w1, True)
      | (Some content, w1) \<Rightarrow>
          (let page_content = header_info c @ content in
           if \<not> truthy (page_id cur) \<and> \<not> page_created_in_this_run cur then
             (case create_bookstack_page R book_id filename page_content (commit_info c) w1 of
                (created_page, w2) \<Rightarrow>
                  if raises_on_id created_page then
                    (CreateCall book_id filename page_content (commit_info c) created_page,
                     cur, w2, False)
                  else if has_id created_page then
                    (CreateCall book_id filename page_content (commit_info c) created_page,
                     cur\<lparr>page_id := id_of created_page,
                         page_created_in_this_run := True,
                         processed_first_commit_for_page := True,
                         previous_page_content := Some page_content\<rparr>,
                     w2, True)
                  else
                    (CreateCall book_id filename page_content (commit_info c) created_page,
                     cur, w2, False))
           else if truthy (page_id cur) \<and> \<not> processed_first_commit_for_page cur then
             (if previous_page_content cur \<noteq> Some page_content then
                (case update_bookstack_page R (page_id cur) page_content (commit_info c) w1 of
                   (updated_page, w2) \<Rightarrow>
                     (UpdateCall (page_id cur) page_content (commit_info c) updated_page,
                      cur\<lparr>previous_page_content := Some page_content\<rparr>, w2, True))
              else
                (NoChange, cur\<lparr>previous_page_content := Some page_content\<rparr>, w1, True))
           else if truthy (page_id cur) \<and> processed_first_commit_for_page cur then
             (ResetFlag,
              cur\<lparr>processed_first_commit_for_page := False,
                  previous_page_content := Some page_content\<rparr>, w1, True)
           else
             (NoBranch, cur\<lparr>previous_page_content := Some page_content\<rparr>, w1, True)))"

text \<open>
  The loop over the commits. The log has one entry for each commit the loop reached, in
  the order it reached them: the commit and what the iteration did.
\<close>

fun replay ::
  "'w remote \<Rightarrow> string \<Rightarrow> string \<Rightarrow> pyid \<Rightarrow> string \<Rightarrow> commit list \<Rightarrow> cursor \<Rightarrow> 'w
    \<Rightarrow> (commit \<times> action) list \<times> cursor \<times> 'w"
where
  "replay R workspace sid book_id filename [] cur w = ([], cur, w)"
| "replay R workspace sid book_id filename (c # cs) cur w =
     (case apply_commit R workspace sid book_id filename c cur w of
        (a, cur1, w1, go_on) \<Rightarrow>
          if go_on then
            (case replay R workspace sid book_id filename cs cur1 w1 of
               (log, cur2, w2) \<Rightarrow> ((c, a) # log, cur2, w2))
          else ([(c, a)], cur1, w1))"

text \<open>The condition of the warning after the loop: the page was not created.\<close>

definition not_created :: "cursor \<Rightarrow> bool" where
  "not_created cur = (\<not> truthy (page_id cur) \<and> \<not> page_created_in_this_run cur)"

section \<open>One file, one snippet, the whole run\<close>

datatype file_result =
    SkippedExistingPage
  | Replayed "(commit \<times> action) list" cursor

text \<open>
  The body of \<^verbatim>\<open>for filename in current_files.keys()\<close>. A page that the search
  returned is a true value (it has a \<^verbatim>\<open>name\<close>), and \<^verbatim>\<open>target_page.get('id')\<close> is its
  identifier. An exception of the page search, or of the loop over the commits, leaves
  the body too.
\<close>

definition process_file ::
  "'w remote \<Rightarrow> args \<Rightarrow> string \<Rightarrow> string \<Rightarrow> pyid \<Rightarrow> commit list \<Rightarrow> string \<Rightarrow> 'w
    \<Rightarrow> (file_result, 'w) run option"
where
  "process_file R a workspace sid book_id commits filename w =
     (case find_bookstack_page R book_id filename w of
        None \<Rightarrow> None
      | Some (Crash e w1) \<Rightarrow> Some (Crash e w1)
      | Some (Done target_page w1) \<Rightarrow>
          if target_page \<noteq> None \<and> skip_existing_pages a then Some (Done SkippedExistingPage w1)
          else
            (case replay R workspace sid book_id filename commits
                    (initial_cursor (map_option page_ident target_page)) w1 of
               (log, cur, w2) \<Rightarrow>
                 if \<exists>e\<in>set log. raised (snd e) then Some (Crash TypeError w2)
                 else Some (Done (Replayed log cur) w2)))"

text \<open>
  The loop over the files: one result for each file, in the order of the files, unless
  an exception ends the loop.
\<close>

fun process_files ::
  "'w remote \<Rightarrow> args \<Rightarrow> string \<Rightarrow> string \<Rightarrow> pyid \<Rightarrow> commit list \<Rightarrow> string list \<Rightarrow> 'w
    \<Rightarrow> ((string \<times> file_result) list, 'w) run option"
where
  "process_files R a workspace sid book_id commits [] w = Some (Done [] w)"
| "process_files R a workspace sid book_id commits (filename # rest) w =
     (case process_file R a workspace sid book_id commits filename w of
        None \<Rightarrow> None
      | Some (Crash e w1) \<Rightarrow> Some (Crash e w1)
      | Some (Done r w1) \<Rightarrow>
          (case process_files R a workspace sid book_id commits rest w1 of
             None \<Rightarrow> None
           | Some (Crash e w2) \<Rightarrow> Some (Crash e w2)
           | Some (Done rs w2) \<Rightarrow> Some (Done ((filename, r) # rs) w2)))"

text \<open>
  What became of one snippet: the reason it was skipped, or the book, the commit sequence
  that was replayed and the result of every file.
\<close>

datatype snippet_result =
    InvalidSnippet
  | SkippedExistingBook
  | BookCreateFailed
  | NoBookId
  | NoFileList
  | NoFiles
  | CommitsFetchFailed
  | Migrated pyid "commit list" "(string \<times> file_result) list"

text \<open>The commit that \<^verbatim>\<open>main\<close> makes up when the history is empty.\<close>

definition current_state_commit :: "snippet \<Rightarrow> commit" where
  "current_state_commit snippet_details =
     \<lparr>hash = ''HEAD'', date = Some (get_default (updated_on snippet_details) ''N/A''),
      message = Some ''Current state'', author_raw = Some ''N/A''\<rparr>"

text \<open>
  The body of the loop over the snippets from \<^verbatim>\<open>if not book_id\<close> on: the file list,
  the commits, the files. The test of the details is
  \<^verbatim>\<open>not snippet_details or 'files' not in snippet_details\<close>: on a string that contains
  \<open>files\<close> the subscript \<^verbatim>\<open>snippet_details['files']\<close> raises.
\<close>

definition migrate_into_book ::
  "'w remote \<Rightarrow> args \<Rightarrow> string \<Rightarrow> string \<Rightarrow> pyid \<Rightarrow> 'w \<Rightarrow> (snippet_result, 'w) run option"
where
  "migrate_into_book R a workspace sid book_id w =
     (if \<not> truthy book_id then Some (Done NoBookId w)
      else
        (case get_snippet_details R workspace sid w of
           (NoAnswer, w1) \<Rightarrow> Some (Done NoFileList w1)
         | (TextAnswer x, w1) \<Rightarrow>
             if text_has x ''files'' then Some (Crash TypeError w1) else Some (Done NoFileList w1)
         | (JsonAnswer snippet_details, w1) \<Rightarrow>
             (case files snippet_details of
                None \<Rightarrow> Some (Done NoFileList w1)
              | Some current_files \<Rightarrow>
                  if current_files = [] then Some (Done NoFiles w1)
                  else
                    (case get_snippet_commits R workspace sid w1 of
                       None \<Rightarrow> None
                     | Some (None, w2) \<Rightarrow> Some (Done CommitsFetchFailed w2)
                     | Some (Some fetched, w2) \<Rightarrow>
                         (let commits =
                                (if fetched = [] then [current_state_commit snippet_details]
                                 else fetched)
                          in case process_files R a workspace sid book_id commits
                                    current_files w2 of
                               None \<Rightarrow> None
                             | Some (Crash e w3) \<Rightarrow> Some (Crash e w3)
                             | Some (Done rs w3) \<Rightarrow>
                                 Some (Done (Migrated book_id commits rs) w3))))))"

text \<open>How the book of a snippet was obtained: found by the search, or asked for by a create call.\<close>

datatype book_step =
    NoBookStep
  | BookFound book
  | BookCreateCall string response

text \<open>
  The body of the loop over the snippets up to the book. A summary that is false or has no
  \<^verbatim>\<open>id\<close> is skipped; on a string the test is a substring test, and
  \<^verbatim>\<open>snippet_summary['id']\<close> raises if it holds. The book is found or created; a book that
  the search returned is a true value; \<^verbatim>\<open>created_book['id']\<close> raises on a string with
  \<open>id\<close> in it.
\<close>

definition process_snippet ::
  "'w remote \<Rightarrow> args \<Rightarrow> string \<Rightarrow> snippet_item \<Rightarrow> 'w
    \<Rightarrow> (book_step \<times> snippet_result, 'w) run option"
where
  "process_snippet R a workspace item w =
     (case item of
        SnippetText x \<Rightarrow>
          if text_has x ''id'' then Some (Crash TypeError w)
          else Some (Done (NoBookStep, InvalidSnippet) w)
      | SnippetObject snippet_summary \<Rightarrow>
          (case snippet_ident snippet_summary of
             None \<Rightarrow> Some (Done (NoBookStep, InvalidSnippet) w)
           | Some sid \<Rightarrow>
               (let snippet_title =
                      get_default (title snippet_summary) (''Untitled Snippet '' @ sid)
                in case find_bookstack_book R snippet_title w of
                     Crash e w1 \<Rightarrow> Some (Crash e w1)
                   | Done (Some target_book) w1 \<Rightarrow>
                       if skip_existing_books a
                       then Some (Done (BookFound target_book, SkippedExistingBook) w1)
                       else
                         (case migrate_into_book R a workspace sid
                                 (Some (book_ident target_book)) w1 of
                            None \<Rightarrow> None
                          | Some (Crash e w2) \<Rightarrow> Some (Crash e w2)
                          | Some (Done r w2) \<Rightarrow> Some (Done (BookFound target_book, r) w2))
                   | Done None w1 \<Rightarrow>
                       (case create_bookstack_book R snippet_title w1 of
                          (created_book, w2) \<Rightarrow>
                            if raises_on_id created_book then Some (Crash TypeError w2)
                            else if has_id created_book then
                              (case migrate_into_book R a workspace sid (id_of created_book) w2 of
                                 None \<Rightarrow> None
                               | Some (Crash e w3) \<Rightarrow> Some (Crash e w3)
                               | Some (Done r w3) \<Rightarrow>
                                   Some (Done (BookCreateCall snippet_title created_book, r) w3))
                            else
                              Some (Done (BookCreateCall snippet_title created_book,
                                          BookCreateFailed) w2)))))"

text \<open>The loop over the snippets; an exception ends it.\<close>

fun process_snippets ::
  "'w remote \<Rightarrow> args \<Rightarrow> string \<Rightarrow> snippet_item list \<Rightarrow> 'w
    \<Rightarrow> ((book_step \<times> snippet_result) list, 'w) run option"
where
  "process_snippets R a workspace [] w = Some (Done [] w)"
| "process_snippets R a workspace (s # rest) w =
     (case process_snippet R a workspace s w of
        None \<Rightarrow> None
      | Some (Crash e w1) \<Rightarrow> Some (Crash e w1)
      | Some (Done r w1) \<Rightarrow>
          (case process_snippets R a workspace rest w1 of
             None \<Rightarrow> None
           | Some (Crash e w2) \<Rightarrow> Some (Crash e w2)
           | Some (Done rs w2) \<Rightarrow> Some (Done (r # rs) w2)))"

text \<open>\<^verbatim>\<open>args.bb_workspace if args.bb_workspace else args.bb_user\<close>.\<close>

definition bitbucket_workspace :: "args \<Rightarrow> string" where
  "bitbucket_workspace a =
     (if truthy_str (bb_workspace a) then get_default (bb_workspace a) [] else bb_user a)"

text \<open>
  \<^verbatim>\<open>main\<close>, from the snippets on. A run that ends returns the status it exits with
  (\<^verbatim>\<open>sys.exit(1)\<close>, \<^verbatim>\<open>sys.exit(0)\<close>, or 0 at the end of the script) and what became
  of every snippet, or is left by an exception.
\<close>

definition main ::
  "'w remote \<Rightarrow> args \<Rightarrow> 'w \<Rightarrow> (nat \<times> (book_step \<times> snippet_result) list, 'w) run option"
where
  "main R a w =
     (case get_bitbucket_snippets R (bitbucket_workspace a) (test_snippet_id a) w of
        None \<Rightarrow> None
      | Some (None, w1) \<Rightarrow> Some (Done (1, []) w1)
      | Some (Some snippets, w1) \<Rightarrow>
          if snippets = [] then Some (Done (0, []) w1)
          else
            (case process_snippets R a (bitbucket_workspace a) snippets w1 of
               None \<Rightarrow> None
             | Some (Crash e w2) \<Rightarrow> Some (Crash e w2)
             | Some (Done rs w2) \<Rightarrow> Some (Done (0, rs) w2)))"

text \<open>
  The exit status of the process: the one the script exits with, or 1 after the traceback
  of an exception that nothing caught.
\<close>

fun exit_status :: "(nat \<times> 'r, 'w) run \<Rightarrow> nat" where
  "exit_status (Done (code, rs) w) = code"
| "exit_status (Crash e w) = 1"

section \<open>Reading a log\<close>

text \<open>The \<^verbatim>\<open>commit_info\<close> that a destination call was made with.\<close>

fun call_info :: "action \<Rightarrow> string option" where
  "call_info (CreateCall b n c i r) = Some i"
| "call_info (UpdateCall p c i r) = Some i"
| "call_info a = None"

text \<open>What the loop did at the first revision whose content it could fetch.\<close>

fun first_attempt :: "(commit \<times> action) list \<Rightarrow> action option" where
  "first_attempt [] = None"
| "first_attempt (e # es) = (if snd e = SkipRevision then first_attempt es else Some (snd e))"

text \<open>An update call for the page \<open>pid\<close> with this content and this \<^verbatim>\<open>commit_info\<close>.\<close>

fun is_update_of :: "pyid \<Rightarrow> string \<Rightarrow> string \<Rightarrow> action \<Rightarrow> bool" where
  "is_update_of pid content info (UpdateCall p c i r) = (p = pid \<and> c = content \<and> i = info)"
| "is_update_of pid content info a = False"

text \<open>
  The log of a replay on an existing page \<open>pid\<close>, when the content of the file at each
  commit is \<open>content c\<close> and the payload recorded before the first commit is \<open>prev\<close>: one
  entry for each commit, in order; a commit without content is skipped; a commit whose
  payload is the one recorded before it makes no call; every other commit is written by
  an update call with its payload; and the payload of a commit with content is the one
  recorded for the next.
\<close>

fun rerun_log ::
  "pyid \<Rightarrow> (commit \<Rightarrow> string option) \<Rightarrow> string option \<Rightarrow> commit list
    \<Rightarrow> (commit \<times> action) list \<Rightarrow> bool"
where
  "rerun_log pid content prev [] log = (log = [])"
| "rerun_log pid content prev (c # cs) [] = False"
| "rerun_log pid content prev (c # cs) (e # log) =
     (fst e = c \<and>
      (case content c of
         None \<Rightarrow> snd e = SkipRevision \<and> rerun_log pid content prev cs log
       | Some x \<Rightarrow>
           (if prev = Some (header_info c @ x) then snd e = NoChange
            else is_update_of pid (header_info c @ x) (commit_info c) (snd e))
           \<and> rerun_log pid content (Some (header_info c @ x)) cs log))"

text \<open>
  \<open>pages_served request u w ps u' w'\<close>: from the URL \<open>u\<close> and the state \<open>w\<close> on, the
  successive requests of the fetcher are answered with the item pages \<open>ps\<close> (each the
  batch and the \<^verbatim>\<open>next\<close> value it carries), which leaves the URL \<open>u'\<close> to ask for and
  the state \<open>w'\<close>.
\<close>

fun pages_served ::
  "(string \<Rightarrow> 'w \<Rightarrow> 'a page_response \<times> 'w) \<Rightarrow> string option \<Rightarrow> 'w
    \<Rightarrow> ('a list \<times> string option) list \<Rightarrow> string option \<Rightarrow> 'w \<Rightarrow> bool"
where
  "pages_served request u w [] u' w' = (u = u' \<and> w = w')"
| "pages_served request u w ((vs, nxt) # ps) u' w' =
     (case u of
        None \<Rightarrow> False
      | Some url \<Rightarrow>
          url \<noteq> [] \<and>
          (case request url w of
             (ItemsPage vs1 nxt1, w1) \<Rightarrow>
               vs1 = vs \<and> nxt1 = nxt \<and> pages_served request nxt w1 ps u' w'
           | (RequestFailed, w1) \<Rightarrow> False
           | (NoItemsKey, w1) \<Rightarrow> False))"

section \<open>Remote systems for concrete runs\<close>

text \<open>A remote side where every request fails.\<close>

definition offline :: "'w remote" where
  "offline =
     \<lparr>snippets_url = (\<lambda>workspace. ''snippets/'' @ workspace),
      commits_url = (\<lambda>workspace sid. ''snippets/'' @ workspace @ ''/'' @ sid @ ''/commits''),
      get_snippets_page = (\<lambda>url w. (RequestFailed, w)),
      get_commits_page = (\<lambda>url w. (RequestFailed, w)),
      get_snippet = (\<lambda>workspace sid w. (NoAnswer, w)),
      get_file = (\<lambda>workspace sid h f w. (None, w)),
      get_books = (\<lambda>name w. (NoAnswer, w)),
      post_book = (\<lambda>name w. (NoResponse, w)),
      get_pages = (\<lambda>book_id n offset w. (PagesRequestFailed, w)),
      post_page = (\<lambda>book_id name content w. (NoResponse, w)),
      put_page = (\<lambda>pid content summary w. (NoResponse, w))\<rparr>"

text \<open>
  A destination that keeps its pages: the state is the list of the pages (name and
  content), the identifier of a page is its position, counted from 1. Creating a page
  appends it, unless its name is one of \<open>refused\<close>; updating a page replaces its content.
  The source side is a table from commit hash and file name to the content.
\<close>

type_synonym store = "(string \<times> string) list"

definition stored_pages :: "store \<Rightarrow> page list" where
  "stored_pages w =
     map (\<lambda>(i, n, c). \<lparr>page_name = Some n, page_ident = int i + 1\<rparr>) (enumerate 0 w)"

definition store_put :: "pyid \<Rightarrow> string \<Rightarrow> store \<Rightarrow> response \<times> store" where
  "store_put pid content w =
     (case pid of
        None \<Rightarrow> (NoResponse, w)
      | Some i \<Rightarrow>
          if 0 < i \<and> nat i \<le> length w
          then (Response (Some i), w[nat i - 1 := (fst (w ! (nat i - 1)), content)])
          else (NoResponse, w))"

definition bookstack :: "((string \<times> string) \<times> string) list \<Rightarrow> string list \<Rightarrow> store remote" where
  "bookstack table refused =
     offline
     \<lparr>get_file := (\<lambda>workspace sid h f w. (map_of table (h, f), w)),
      get_pages := (\<lambda>book_id n offset w.
         (PagesData (take n (drop offset (stored_pages w))) (Some (int (length w))), w)),
      post_page := (\<lambda>book_id name content w.
         if name \<in> set refused then (NoResponse, w)
         else (Response (Some (int (length w) + 1)), w @ [(name, content)])),
      put_page := (\<lambda>pid content summary w. store_put pid content w)\<rparr>"

text \<open>Four commits, oldest first, by two authors.\<close>

definition commit_of :: "string \<Rightarrow> string \<Rightarrow> commit" where
  "commit_of h author =
     \<lparr>hash = h, date = Some ''2024-05-01'', message = Some ''edit'', author_raw = Some author\<rparr>"

definition c1 :: commit where "c1 = commit_of ''1111111aaaa'' ''alice''"
definition c2 :: commit where "c2 = commit_of ''2222222bbbb'' ''bob''"
definition c3 :: commit where "c3 = commit_of ''3333333cccc'' ''alice''"
definition c4 :: commit where "c4 = commit_of ''4444444dddd'' ''bob''"

text \<open>
  The commit listing of snippet \<open>s1\<close>, newest first, in three pages; the answer to the
  third request is \<open>third\<close>.
\<close>

definition history ::
  "commit page_response \<Rightarrow> string \<Rightarrow> store \<Rightarrow> commit page_response \<times> store"
where
  "history third url w =
     (if url = ''snippets/ws/s1/commits'' then (ItemsPage [c4, c3] (Some ''page2''), w)
      else if url = ''page2'' then (ItemsPage [c2] (Some ''page3''), w)
      else if url = ''page3'' then (third, w)
      else (RequestFailed, w))"

text \<open>A listing that is empty, and one that fails.\<close>

definition no_history :: "string \<Rightarrow> store \<Rightarrow> commit page_response \<times> store" where
  "no_history url w = (ItemsPage [] None, w)"

definition broken_history :: "string \<Rightarrow> store \<Rightarrow> commit page_response \<times> store" where
  "broken_history url w = (RequestFailed, w)"

text \<open>Snippet \<open>s1\<close>, with the files \<open>x\<close> and \<open>notes.txt\<close>.\<close>

definition details :: snippet where
  "details =
     \<lparr>snippet_ident = Some ''s1'', title = Some ''demo'',
      files = Some [''x'', ''notes.txt''], updated_on = Some ''2024-06-01''\<rparr>"

text \<open>
  The contents: \<open>notes.txt\<close> appears at the third commit and changes at the fourth; \<open>x\<close>
  is there at the first two commits and at \<open>HEAD\<close>. The remote systems of the runs:
  the destination refuses to create the pages named in \<open>refused\<close>, the source lists the
  one snippet and answers the commit listing with \<open>commit_listing\<close>, and the book of every
  title exists, with the identifier 3.
\<close>

definition contents :: "((string \<times> string) \<times> string) list" where
  "contents =
     [((hash c1, ''x''), ''one''), ((hash c2, ''x''), ''two''),
      ((hash c3, ''notes.txt''), ''hello''), ((hash c4, ''notes.txt''), ''hello world''),
      ((''HEAD'', ''x''), ''two''), ((''HEAD'', ''notes.txt''), ''hello world'')]"

definition demo ::
  "string list \<Rightarrow> (string \<Rightarrow> store \<Rightarrow> commit page_response \<times> store) \<Rightarrow> store remote"
where
  "demo refused commit_listing =
     (bookstack contents refused)
     \<lparr>get_snippets_page := (\<lambda>url w.
         if url = ''snippets/ws'' then (ItemsPage [details] None, w) else (RequestFailed, w)),
      get_commits_page := commit_listing,
      get_snippet := (\<lambda>workspace sid w.
         (if sid = ''s1'' then JsonAnswer details else NoAnswer, w)),
      get_books := (\<lambda>name w. (JsonAnswer [\<lparr>book_name = Some name, book_ident = 3\<rparr>], w))\<rparr>"

text \<open>The command line of user \<open>ws\<close>, with the two options the runs below vary.\<close>

definition flags :: "bool \<Rightarrow> string option \<Rightarrow> args" where
  "flags skip_pages only =
     \<lparr>bb_user = ''ws'', bb_workspace = None, skip_existing_books = False,
      skip_existing_pages = skip_pages, test_snippet_id = only\<rparr>"

text \<open>
  A proxy in front of the destination that answers the create call for the page \<open>name\<close>
  with status 200 and an HTML page instead of JSON.
\<close>

definition html_for :: "string \<Rightarrow> store remote \<Rightarrow> store remote" where
  "html_for name R =
     R\<lparr>post_page := (\<lambda>book_id n content w.
          if n = name then (TextResponse ''<html><body id=login>'', w)
          else post_page R book_id n content w)\<rparr>"

text \<open>A destination whose search lists the page \<open>name\<close> with the identifier 0.\<close>

definition page_zero :: "string \<Rightarrow> store remote \<Rightarrow> store remote" where
  "page_zero name R =
     R\<lparr>get_pages := (\<lambda>book_id n offset w.
          (PagesData [\<lparr>page_name = Some name, page_ident = 0\<rparr>] (Some 1), w))\<rparr>"

text \<open>Two runs, the second from the state of the remote systems that the first left.\<close>

definition run_twice ::
  "'w remote \<Rightarrow> args \<Rightarrow> 'w
    \<Rightarrow> (nat \<times> (book_step \<times> snippet_result) list, 'w) run option"
where
  "run_twice R a w =
     (case main R a w of
        None \<Rightarrow> None
      | Some (Done r w1) \<Rightarrow> main R a w1
      | Some (Crash e w1) \<Rightarrow> main R a w1)"

section \<open>Lemmas\<close>

subsection \<open>One iteration\<close>

text \<open>What \<open>apply_commit\<close> does in each of its branches.\<close>

lemma raises_on_id_no_id [simp]: "raises_on_id r \<Longrightarrow> \<not> has_id r"
  by (cases r) auto

lemma raised_failed_create: "raised a \<Longrightarrow> is_failed_create a"
  by (cases a) auto

lemma apply_commit_skip:
  "fst (get_snippet_revision_content R ws sid (hash c) f w) = None \<Longrightarrow>
   apply_commit R ws sid b f c cur w =
     (SkipRevision, cur, snd (get_snippet_revision_content R ws sid (hash c) f w), True)"
  by (auto simp: apply_commit_def split: prod.splits option.splits)

lemma apply_commit_SkipRevision:
  "apply_commit R ws sid b f c cur w = (SkipRevision, cur1, w1, go) \<Longrightarrow> cur1 = cur \<and> go"
  by (auto simp: apply_commit_def Let_def split: prod.splits option.splits if_splits)

lemma apply_commit_created:
  "apply_commit R ws sid b f c cur w = (a, cur1, w1, go) \<Longrightarrow> is_create a \<Longrightarrow>
   \<not> is_failed_create a \<Longrightarrow>
   go \<and> page_created_in_this_run cur1 \<and> processed_first_commit_for_page cur1"
  by (auto simp: apply_commit_def Let_def split: prod.splits option.splits if_splits)

lemma apply_commit_failed_create:
  "apply_commit R ws sid b f c cur w = (a, cur1, w1, go) \<Longrightarrow> is_failed_create a \<Longrightarrow>
   \<not> go \<and> cur1 = cur \<and> \<not> truthy (page_id cur) \<and> \<not> page_created_in_this_run cur"
  by (auto simp: apply_commit_def Let_def split: prod.splits option.splits if_splits)

lemma apply_commit_go_on:
  "apply_commit R ws sid b f c cur w = (a, cur1, w1, go) \<Longrightarrow> go = (\<not> is_failed_create a)"
  by (auto simp: apply_commit_def Let_def split: prod.splits option.splits if_splits)

lemma apply_commit_no_create:
  "apply_commit R ws sid b f c cur w = (a, cur1, w1, go) \<Longrightarrow>
   truthy (page_id cur) \<or> page_created_in_this_run cur \<Longrightarrow>
   \<not> is_create a \<and> go \<and> (truthy (page_id cur1) \<or> page_created_in_this_run cur1)"
  by (auto simp: apply_commit_def Let_def split: prod.splits option.splits if_splits)

lemma apply_commit_after_create:
  assumes "get_snippet_revision_content R ws sid (hash c) f w = (Some content, w1)"
    and "page_created_in_this_run cur" and "processed_first_commit_for_page cur"
  shows "\<exists>a cur1. apply_commit R ws sid b f c cur w = (a, cur1, w1, True) \<and> \<not> is_call a
     \<and> previous_page_content cur1 = Some (header_info c @ content)"
  using assms by (auto simp: apply_commit_def Let_def is_call_def)


lemma apply_commit_existing_first:
  assumes "apply_commit R ws sid b f c cur w = (a, cur1, w1, go)"
    and "truthy (page_id cur)" and "\<not> processed_first_commit_for_page cur"
    and "previous_page_content cur = None"
  shows "(a = SkipRevision \<and> cur1 = cur) \<or> is_update a"
  using assms
  by (auto simp: apply_commit_def Let_def split: prod.splits option.splits if_splits)

lemma apply_commit_call_info:
  "apply_commit R ws sid b f c cur w = (a, cur1, w1, go) \<Longrightarrow> is_call a \<Longrightarrow>
   call_info a = Some (commit_info c)"
  by (auto simp: apply_commit_def Let_def is_call_def split: prod.splits option.splits if_splits)

text \<open>
  The second branch: with the page identifier set and the flag clear, a fetched revision
  is compared with the recorded payload, and written by an update call if it differs.
\<close>

lemma apply_commit_compare:
  assumes "get_snippet_revision_content R ws sid (hash c) f w = (Some content, w1)"
    and "truthy (page_id cur)" and "\<not> processed_first_commit_for_page cur"
  shows "(previous_page_content cur = Some (header_info c @ content) \<longrightarrow>
            apply_commit R ws sid b f c cur w =
              (NoChange, cur\<lparr>previous_page_content := Some (header_info c @ content)\<rparr>,
               w1, True))
       \<and> (previous_page_content cur \<noteq> Some (header_info c @ content) \<longrightarrow>
            (\<exists>r w2.
               update_bookstack_page R (page_id cur) (header_info c @ content) (commit_info c) w1
                 = (r, w2)
               \<and> apply_commit R ws sid b f c cur w =
                   (UpdateCall (page_id cur) (header_info c @ content) (commit_info c) r,
                    cur\<lparr>previous_page_content := Some (header_info c @ content)\<rparr>,
                    w2, True)))"
  using assms by (auto simp: apply_commit_def Let_def split: prod.splits)

subsection \<open>The loop over the commits\<close>

text \<open>Facts about \<open>replay\<close>, by induction on the commits with the loop variables and the remote state generalised.\<close>

lemma replay_all_skipped:
  "replay R ws sid b f cs cur w = (log, cur', w') \<Longrightarrow> \<forall>e\<in>set log. snd e = SkipRevision \<Longrightarrow>
   cur' = cur \<and> map fst log = cs"
proof (induction cs arbitrary: cur w log cur' w')
  case Nil
  then show ?case by simp
next
  case (Cons c cs)
  obtain a cur1 w1 go where step: "apply_commit R ws sid b f c cur w = (a, cur1, w1, go)"
    by (cases "apply_commit R ws sid b f c cur w") auto
  show ?case
  proof (cases go)
    case True
    obtain log1 cur2 w2 where rest: "replay R ws sid b f cs cur1 w1 = (log1, cur2, w2)"
      by (cases "replay R ws sid b f cs cur1 w1") auto
    from Cons.prems step True rest have log: "log = (c, a) # log1" and c2: "cur' = cur2" by auto
    with Cons.prems(2) have a: "a = SkipRevision" and sk: "\<forall>e\<in>set log1. snd e = SkipRevision" by auto
    from step a have "cur1 = cur" by (auto dest: apply_commit_SkipRevision)
    moreover from Cons.IH[OF rest sk] have "cur2 = cur1 \<and> map fst log1 = cs" .
    ultimately show ?thesis using log c2 by simp
  next
    case False
    with Cons.prems step have "log = [(c, a)]" by auto
    with Cons.prems(2) have "a = SkipRevision" by auto
    with step False show ?thesis by (auto dest: apply_commit_SkipRevision)
  qed
qed

lemma replay_no_create:
  "replay R ws sid b f cs cur w = (log, cur', w') \<Longrightarrow>
   truthy (page_id cur) \<or> page_created_in_this_run cur \<Longrightarrow>
   (\<forall>e\<in>set log. \<not> is_create (snd e)) \<and> map fst log = cs"
proof (induction cs arbitrary: cur w log cur' w')
  case Nil
  then show ?case by simp
next
  case (Cons c cs)
  obtain a cur1 w1 go where step: "apply_commit R ws sid b f c cur w = (a, cur1, w1, go)"
    by (cases "apply_commit R ws sid b f c cur w") auto
  from apply_commit_no_create[OF step Cons.prems(2)]
  have na: "\<not> is_create a" and go: go
    and inv: "truthy (page_id cur1) \<or> page_created_in_this_run cur1" by auto
  obtain log1 cur2 w2 where rest: "replay R ws sid b f cs cur1 w1 = (log1, cur2, w2)"
    by (cases "replay R ws sid b f cs cur1 w1") auto
  from Cons.prems(1) step go rest have log: "log = (c, a) # log1" by auto
  from Cons.IH[OF rest inv] na log show ?case by simp
qed


lemma replay_prefix:
  "replay R ws sid b f cs cur w = (log, cur', w') \<Longrightarrow> prefix (map fst log) cs"
proof (induction cs arbitrary: cur w log cur' w')
  case Nil
  then show ?case by simp
next
  case (Cons c cs)
  obtain a cur1 w1 go where step: "apply_commit R ws sid b f c cur w = (a, cur1, w1, go)"
    by (cases "apply_commit R ws sid b f c cur w") auto
  show ?case
  proof (cases go)
    case False
    with Cons.prems step show ?thesis by auto
  next
    case True
    obtain log1 cur2 w2 where rest: "replay R ws sid b f cs cur1 w1 = (log1, cur2, w2)"
      by (cases "replay R ws sid b f cs cur1 w1") auto
    from Cons.prems step True rest have log: "log = (c, a) # log1" by auto
    with Cons.IH[OF rest] show ?thesis by simp
  qed
qed


lemma replay_existing_first:
  assumes "replay R ws sid b f cs cur w = (log, cur', w')"
    and "truthy (page_id cur)" and "\<not> processed_first_commit_for_page cur"
    and "previous_page_content cur = None"
  shows "case first_attempt log of None \<Rightarrow> True | Some a \<Rightarrow> is_update a"
  using assms
proof (induction cs arbitrary: w log cur' w')
  case Nil
  then show ?case by simp
next
  case (Cons c cs)
  obtain a cur1 w1 go where step: "apply_commit R ws sid b f c cur w = (a, cur1, w1, go)"
    by (cases "apply_commit R ws sid b f c cur w") auto
  from apply_commit_no_create[OF step] Cons.prems(2) have go: go by simp
  obtain log1 cur2 w2 where rest: "replay R ws sid b f cs cur1 w1 = (log1, cur2, w2)"
    by (cases "replay R ws sid b f cs cur1 w1") auto
  from Cons.prems(1) step go rest have log: "log = (c, a) # log1" by auto
  from apply_commit_existing_first[OF step Cons.prems(2,3,4)]
  show ?case
  proof
    assume "a = SkipRevision \<and> cur1 = cur"
    with Cons.IH[of w1 log1 cur2 w2] rest Cons.prems(2,3,4) log show ?thesis by simp
  next
    assume "is_update a"
    then have "a \<noteq> SkipRevision" by auto
    with \<open>is_update a\<close> log show ?thesis by simp
  qed
qed

lemma replay_call_info:
  "replay R ws sid b f cs cur w = (log, cur', w') \<Longrightarrow>
   \<forall>e\<in>set log. is_call (snd e) \<longrightarrow> call_info (snd e) = Some (commit_info (fst e))"
proof (induction cs arbitrary: cur w log cur' w')
  case Nil
  then show ?case by simp
next
  case (Cons c cs)
  obtain a cur1 w1 go where step: "apply_commit R ws sid b f c cur w = (a, cur1, w1, go)"
    by (cases "apply_commit R ws sid b f c cur w") auto
  note info = apply_commit_call_info[OF step]
  show ?case
  proof (cases go)
    case False
    with Cons.prems step info show ?thesis by auto
  next
    case True
    obtain log1 cur2 w2 where rest: "replay R ws sid b f cs cur1 w1 = (log1, cur2, w2)"
      by (cases "replay R ws sid b f cs cur1 w1") auto
    from Cons.prems step True rest have log: "log = (c, a) # log1" by auto
    with Cons.IH[OF rest] info show ?thesis by auto
  qed
qed

lemma replay_shape:
  assumes "replay R ws sid b f cs cur w = (log, cur', w')"
  shows "if \<exists>e\<in>set log. is_failed_create (snd e)
         then log \<noteq> [] \<and> is_failed_create (snd (last log))
              \<and> (\<forall>e\<in>set (butlast log). snd e = SkipRevision) \<and> not_created cur'
         else map fst log = cs"
  using assms
proof (induction cs arbitrary: cur w log cur' w')
  case Nil
  then show ?case by simp
next
  case (Cons c cs)
  obtain a cur1 w1 go where step: "apply_commit R ws sid b f c cur w = (a, cur1, w1, go)"
    by (cases "apply_commit R ws sid b f c cur w") auto
  show ?case
  proof (cases go)
    case False
    with Cons.prems step have log: "log = [(c, a)]" and c: "cur' = cur1" by auto
    from apply_commit_go_on[OF step] False have fc: "is_failed_create a" by simp
    from apply_commit_failed_create[OF step fc] c have "not_created cur'"
      by (simp add: not_created_def)
    with log fc show ?thesis by simp
  next
    case True
    obtain log1 cur2 w2 where rest: "replay R ws sid b f cs cur1 w1 = (log1, cur2, w2)"
      by (cases "replay R ws sid b f cs cur1 w1") auto
    from Cons.prems step True rest have log: "log = (c, a) # log1" and c: "cur' = cur2" by auto
    from apply_commit_go_on[OF step] True have nf: "\<not> is_failed_create a" by simp
    note IH = Cons.IH[OF rest]
    show ?thesis
    proof (cases "\<exists>e\<in>set log1. is_failed_create (snd e)")
      case False
      with IH log nf show ?thesis by simp
    next
      case fail: True
      with IH have ne: "log1 \<noteq> []" and l: "is_failed_create (snd (last log1))"
        and sk: "\<forall>e\<in>set (butlast log1). snd e = SkipRevision" and ncr: "not_created cur2"
        by simp_all
      from fail obtain e where e: "e \<in> set log1" "is_failed_create (snd e)" by blast
      then have "is_create (snd e)" by (cases "snd e") auto
      have "\<not> (truthy (page_id cur1) \<or> page_created_in_this_run cur1)"
      proof
        assume "truthy (page_id cur1) \<or> page_created_in_this_run cur1"
        from replay_no_create[OF rest this] e(1) \<open>is_create (snd e)\<close> show False by blast
      qed
      then have nc1: "\<not> truthy (page_id cur1)" "\<not> page_created_in_this_run cur1" by simp_all
      have "\<not> is_create a"
      proof
        assume "is_create a"
        from apply_commit_created[OF step this nf] nc1 show False by simp
      qed
      with step nc1 have a: "a = SkipRevision"
        by (auto simp: apply_commit_def Let_def split: prod.splits option.splits if_splits)
      from log ne l sk ncr c a fail show ?thesis by simp
    qed
  qed
qed

lemma subseq_filter_prefix:
  "prefix (map fst log) cs \<Longrightarrow> subseq (map fst (filter P log)) cs"
proof -
  assume p: "prefix (map fst log) cs"
  have "subseq (map fst (filter P log)) (map fst log)"
    by (induction log) auto
  moreover from p have "subseq (map fst log) cs" by (rule prefix_imp_subseq)
  ultimately show ?thesis by (rule subseq_order.trans)
qed

lemma replay_rerun:
  assumes "replay R ws sid b f cs cur w = (log, cur', w')"
    and "truthy (page_id cur)" and "\<not> processed_first_commit_for_page cur"
    and "\<forall>c\<in>set cs. \<forall>v. fst (get_snippet_revision_content R ws sid (hash c) f v) = content c"
  shows "rerun_log (page_id cur) content (previous_page_content cur) cs log"
  using assms
proof (induction cs arbitrary: cur w log cur' w')
  case Nil
  then show ?case by simp
next
  case (Cons c cs)
  have stable: "\<forall>c\<in>set cs. \<forall>v. fst (get_snippet_revision_content R ws sid (hash c) f v) = content c"
    using Cons.prems(4) by simp
  have here: "fst (get_snippet_revision_content R ws sid (hash c) f w) = content c"
    using Cons.prems(4) by simp
  show ?case
  proof (cases "content c")
    case None
    with here have "fst (get_snippet_revision_content R ws sid (hash c) f w) = None" by simp
    from apply_commit_skip[OF this] obtain w1 where
      step: "apply_commit R ws sid b f c cur w = (SkipRevision, cur, w1, True)" by blast
    obtain log1 cur2 w2 where rest: "replay R ws sid b f cs cur w1 = (log1, cur2, w2)"
      by (cases "replay R ws sid b f cs cur w1") auto
    from Cons.prems(1) step rest have log: "log = (c, SkipRevision) # log1" by simp
    from Cons.IH[OF rest Cons.prems(2,3) stable] log None show ?thesis by simp
  next
    case (Some x)
    with here obtain w1 where
      fetch: "get_snippet_revision_content R ws sid (hash c) f w = (Some x, w1)"
      by (cases "get_snippet_revision_content R ws sid (hash c) f w") simp
    let ?cur1 = "cur\<lparr>previous_page_content := Some (header_info c @ x)\<rparr>"
    have t: "truthy (page_id ?cur1)" and n: "\<not> processed_first_commit_for_page ?cur1"
      using Cons.prems(2,3) by simp_all
    note cmp = apply_commit_compare[OF fetch Cons.prems(2,3), of b]
    show ?thesis
    proof (cases "previous_page_content cur = Some (header_info c @ x)")
      case True
      with cmp have step: "apply_commit R ws sid b f c cur w = (NoChange, ?cur1, w1, True)"
        by simp
      obtain log1 cur2 w2 where rest: "replay R ws sid b f cs ?cur1 w1 = (log1, cur2, w2)"
        by (cases "replay R ws sid b f cs ?cur1 w1") auto
      from Cons.prems(1) step rest have log: "log = (c, NoChange) # log1" by simp
      from Cons.IH[OF rest t n stable] log Some True show ?thesis by simp
    next
      case False
      with cmp obtain r w2 where
        step: "apply_commit R ws sid b f c cur w =
                 (UpdateCall (page_id cur) (header_info c @ x) (commit_info c) r, ?cur1, w2, True)"
        by blast
      obtain log1 cur2 w3 where rest: "replay R ws sid b f cs ?cur1 w2 = (log1, cur2, w3)"
        by (cases "replay R ws sid b f cs ?cur1 w2") auto
      from Cons.prems(1) step rest
      have log: "log = (c, UpdateCall (page_id cur) (header_info c @ x) (commit_info c) r) # log1"
        by simp
      from Cons.IH[OF rest t n stable] log Some False show ?thesis by simp
    qed
  qed
qed

text \<open>The loop makes no call that raises once the page identifier is set.\<close>

lemma replay_no_create_not_raised:
  "\<forall>e\<in>set log. \<not> is_create (snd e) \<Longrightarrow> \<forall>e\<in>set log. \<not> raised (snd e)"
proof
  fix e assume a: "\<forall>e\<in>set log. \<not> is_create (snd e)" and e: "e \<in> set log"
  then have "\<not> is_create (snd e)" by blast
  then show "\<not> raised (snd e)" by (cases "snd e") auto
qed

subsection \<open>The loop over the files\<close>

lemma process_file_replayed:
  "process_file R a ws sid b commits f w = Some (Done (Replayed log cur) w2) \<Longrightarrow>
   \<exists>target w1.
     find_bookstack_page R b f w = Some (Done target w1)
     \<and> replay R ws sid b f commits (initial_cursor (map_option page_ident target)) w1
         = (log, cur, w2)
     \<and> (\<forall>e\<in>set log. \<not> raised (snd e))"
  by (auto simp: process_file_def split: option.splits prod.splits if_splits run.splits)

lemma process_files_results:
  "process_files R a ws sid b commits fs w = Some (Done rs w') \<Longrightarrow>
   map fst rs = fs \<and>
   (\<forall>e\<in>set rs. \<exists>w0 w1. process_file R a ws sid b commits (fst e) w0 = Some (Done (snd e) w1))"
proof (induction fs arbitrary: w rs w')
  case Nil
  then show ?case by simp
next
  case (Cons f fs)
  from Cons.prems obtain r w1 rs1 where
    one: "process_file R a ws sid b commits f w = Some (Done r w1)"
    and rest: "process_files R a ws sid b commits fs w1 = Some (Done rs1 w')"
    and rs: "rs = (f, r) # rs1"
    by (auto split: option.splits run.splits)
  from Cons.IH[OF rest] one rs show ?case by auto
qed

lemma process_files_single_commit:
  assumes "process_files R a ws sid b [c] fs w = Some (Done rs w')"
  shows "map fst rs = fs \<and>
         (\<forall>e\<in>set rs. snd e = SkippedExistingPage \<or> (\<exists>act cur. snd e = Replayed [(c, act)] cur))"
proof -
  from process_files_results[OF assms] have fs: "map fst rs = fs"
    and each: "\<forall>e\<in>set rs. \<exists>w0 w1. process_file R a ws sid b [c] (fst e) w0 = Some (Done (snd e) w1)"
    by simp_all
  have "snd e = SkippedExistingPage \<or> (\<exists>act cur. snd e = Replayed [(c, act)] cur)"
    if "e \<in> set rs" for e
  proof -
    from each that obtain w0 w1 where
      "process_file R a ws sid b [c] (fst e) w0 = Some (Done (snd e) w1)"
      by blast
    then show ?thesis
      by (cases "snd e")
         (auto simp: process_file_def split: option.splits prod.splits if_splits run.splits)
  qed
  with fs show ?thesis by blast
qed

text \<open>
  The loop over the files returns, or is left by an exception, whenever the page search
  of each of its files returns: the loop over the commits always ends.
\<close>

lemma process_file_ends:
  "find_bookstack_page R b f w \<noteq> None \<Longrightarrow> process_file R a ws sid b commits f w \<noteq> None"
  by (auto simp: process_file_def split: option.splits prod.splits run.splits)

lemma process_files_ends:
  "\<forall>f\<in>set fs. \<forall>v. find_bookstack_page R b f v \<noteq> None \<Longrightarrow>
   process_files R a ws sid b commits fs w \<noteq> None"
proof (induction fs arbitrary: w)
  case Nil
  then show ?case by simp
next
  case (Cons f fs)
  from Cons.prems have "process_file R a ws sid b commits f w \<noteq> None"
    by (simp add: process_file_ends)
  then obtain out where one: "process_file R a ws sid b commits f w = Some out" by blast
  have rest: "process_files R a ws sid b commits fs v \<noteq> None" for v
    using Cons by simp
  show ?case
  proof (cases out)
    case (Done r w1)
    from rest[of w1] obtain out1 where
      "process_files R a ws sid b commits fs w1 = Some out1" by blast
    with one Done show ?thesis by (cases out1) simp_all
  next
    case (Crash e w1)
    with one show ?thesis by simp
  qed
qed

text \<open>
  The results of the loop over the files when it ends without an exception: a failed
  create is the last entry of the log of its file, and the log of every other file has an
  entry for every commit.
\<close>

lemma process_files_confined:
  assumes "process_files R a ws sid b commits fs w = Some (Done rs w')"
  shows "map fst rs = fs
       \<and> (\<forall>e\<in>set rs. case snd e of
              SkippedExistingPage \<Rightarrow> True
            | Replayed log cur \<Rightarrow>
                prefix (map fst log) commits \<and>
                (if \<exists>x\<in>set log. is_failed_create (snd x)
                 then log \<noteq> [] \<and> is_failed_create (snd (last log))
                      \<and> (\<forall>x\<in>set (butlast log). snd x = SkipRevision) \<and> not_created cur
                 else map fst log = commits))"
proof -
  from process_files_results[OF assms] have fs: "map fst rs = fs"
    and each: "\<forall>e\<in>set rs. \<exists>w0 w1.
                 process_file R a ws sid b commits (fst e) w0 = Some (Done (snd e) w1)"
    by simp_all
  have "case snd e of
              SkippedExistingPage \<Rightarrow> True
            | Replayed log cur \<Rightarrow>
                prefix (map fst log) commits \<and>
                (if \<exists>x\<in>set log. is_failed_create (snd x)
                 then log \<noteq> [] \<and> is_failed_create (snd (last log))
                      \<and> (\<forall>x\<in>set (butlast log). snd x = SkipRevision) \<and> not_created cur
                 else map fst log = commits)" if "e \<in> set rs" for e
  proof (cases "snd e")
    case SkippedExistingPage
    then show ?thesis by simp
  next
    case (Replayed log cur)
    from each that obtain w0 w1 where
      "process_file R a ws sid b commits (fst e) w0 = Some (Done (snd e) w1)" by blast
    with Replayed have
      "process_file R a ws sid b commits (fst e) w0 = Some (Done (Replayed log cur) w1)"
      by simp
    from process_file_replayed[OF this] obtain target :: "page option" and w2 where
      rp: "replay R ws sid b (fst e) commits (initial_cursor (map_option page_ident target)) w2
             = (log, cur, w1)"
      by auto
    from replay_shape[OF rp] replay_prefix[OF rp] Replayed show ?thesis by simp
  qed
  with fs show ?thesis by blast
qed

text \<open>An iteration that makes an update call goes on, whatever the answer.\<close>

lemma apply_commit_update_goes_on:
  assumes "apply_commit R ws sid b f c cur w = (a, cur1, w1, go)" and "is_update a"
  shows go
proof -
  from assms(2) have "\<not> is_failed_create a" by (cases a) simp_all
  with apply_commit_go_on[OF assms(1)] show ?thesis by simp
qed

text \<open>
  If no answer to a create call is a string with \<open>id\<close> in it, the loop over the commits
  raises nothing, and the loop over the files returns a result for every file as soon as
  every page search returns one.
\<close>

lemma apply_commit_not_raised:
  assumes "\<forall>bk n c i v. \<not> raises_on_id (fst (create_bookstack_page R bk n c i v))"
    and "apply_commit R ws sid b f c cur w = (a, cur1, w1, go)"
  shows "\<not> raised a"
proof (cases a)
  case (CreateCall bk n x i r)
  with assms(2) have "\<exists>v w'. create_bookstack_page R bk n x i v = (r, w')"
    by (auto simp: apply_commit_def Let_def split: prod.splits option.splits if_splits)
  then obtain v w' where "create_bookstack_page R bk n x i v = (r, w')" by blast
  then have "r = fst (create_bookstack_page R bk n x i v)" by simp
  with assms(1) CreateCall show ?thesis by simp
qed simp_all

lemma replay_not_raised:
  assumes "\<forall>bk n c i v. \<not> raises_on_id (fst (create_bookstack_page R bk n c i v))"
    and "replay R ws sid b f cs cur w = (log, cur', w')"
  shows "\<forall>e\<in>set log. \<not> raised (snd e)"
  using assms(2)
proof (induction cs arbitrary: cur w log cur' w')
  case Nil
  then show ?case by simp
next
  case (Cons c cs)
  obtain a cur1 w1 go where step: "apply_commit R ws sid b f c cur w = (a, cur1, w1, go)"
    by (cases "apply_commit R ws sid b f c cur w") auto
  note nr = apply_commit_not_raised[OF assms(1) step]
  show ?case
  proof (cases go)
    case False
    with Cons.prems step nr show ?thesis by auto
  next
    case True
    obtain log1 cur2 w2 where rest: "replay R ws sid b f cs cur1 w1 = (log1, cur2, w2)"
      by (cases "replay R ws sid b f cs cur1 w1") auto
    from Cons.prems step True rest have "log = (c, a) # log1" by auto
    with Cons.IH[OF rest] nr show ?thesis by auto
  qed
qed

lemma process_files_returns:
  assumes "\<forall>f\<in>set fs. \<forall>v. \<exists>t w1. find_bookstack_page R b f v = Some (Done t w1)"
    and "\<forall>bk n c i v. \<not> raises_on_id (fst (create_bookstack_page R bk n c i v))"
  shows "\<exists>rs w'. process_files R a ws sid b commits fs w = Some (Done rs w')"
  using assms(1)
proof (induction fs arbitrary: w)
  case Nil
  then show ?case by simp
next
  case (Cons f fs)
  from Cons.prems obtain t w1 where found: "find_bookstack_page R b f w = Some (Done t w1)"
    by (meson list.set_intros(1))
  obtain log cur w2 where
    rp: "replay R ws sid b f commits (initial_cursor (map_option page_ident t)) w1 = (log, cur, w2)"
    by (cases "replay R ws sid b f commits (initial_cursor (map_option page_ident t)) w1") auto
  from replay_not_raised[OF assms(2) rp] have nr: "\<not> (\<exists>e\<in>set log. raised (snd e))" by simp
  from found rp nr have "\<exists>r w3. process_file R a ws sid b commits f w = Some (Done r w3)"
    by (cases "t \<noteq> None \<and> skip_existing_pages a") (simp_all add: process_file_def)
  then obtain r w3 where
    one: "process_file R a ws sid b commits f w = Some (Done r w3)" by blast
  from Cons.prems have "\<forall>f\<in>set fs. \<forall>v. \<exists>t w1. find_bookstack_page R b f v = Some (Done t w1)"
    by simp
  from Cons.IH[OF this, of w3] obtain rs w' where
    "process_files R a ws sid b commits fs w3 = Some (Done rs w')" by blast
  with one show ?case by simp
qed

subsection \<open>The fetcher\<close>

lemma paginate_pages_served:
  "pages_served request u w ps u' w' \<Longrightarrow>
   paginate request u results w = paginate request u' (results @ concat (map fst ps)) w'"
proof (induction ps arbitrary: u w results)
  case Nil
  then show ?case by simp
next
  case (Cons p ps)
  obtain vs nxt where p: "p = (vs, nxt)" by (cases p)
  from Cons.prems p obtain url w1 where u: "u = Some url" "url \<noteq> []"
    and r: "request url w = (ItemsPage vs nxt, w1)"
    and rest: "pages_served request nxt w1 ps u' w'"
    by (auto split: option.splits prod.splits page_response.splits)
  have "paginate request u results w = paginate request nxt (results @ vs) w1"
    using u r by (subst paginate.simps) simp
  also have "\<dots> = paginate request u' ((results @ vs) @ concat (map fst ps)) w'"
    by (rule Cons.IH[OF rest])
  finally show ?case using p by simp
qed

lemma paginate_stop:
  "\<not> truthy_str u \<Longrightarrow> paginate request u results w = Some (Some results, w)"
  by (subst paginate.simps) (auto simp: truthy_str_def split: option.splits)

lemma paginate_failed:
  "url \<noteq> [] \<Longrightarrow> request url w = (RequestFailed, w') \<Longrightarrow>
   paginate request (Some url) results w = Some (None, w')"
  by (subst paginate.simps) simp

lemma paginate_no_items:
  "url \<noteq> [] \<Longrightarrow> request url w = (NoItemsKey, w') \<Longrightarrow>
   paginate request (Some url) results w = Some (Some results, w')"
  by (subst paginate.simps) simp

subsection \<open>One snippet\<close>

lemma get_snippet_commits_Some:
  "get_snippet_commits R ws sid w = Some (Some fetched, w1) \<Longrightarrow>
   \<exists>newest_first.
     get_paginated_results (get_commits_page R) (commits_url R ws sid) w = Some (Some newest_first, w1)
     \<and> fetched = rev newest_first"
  by (auto simp: get_snippet_commits_def split: option.splits prod.splits)

lemma migrate_into_book_Migrated:
  assumes "migrate_into_book R a ws sid book w = Some (Done (Migrated b commits rs) w')"
  shows "\<exists>d w1 fetched w2 fs.
           get_snippet_details R ws sid w = (JsonAnswer d, w1) \<and> files d = Some fs
           \<and> get_snippet_commits R ws sid w1 = Some (Some fetched, w2)
           \<and> commits = (if fetched = [] then [current_state_commit d] else fetched)
           \<and> process_files R a ws sid book commits fs w2 = Some (Done rs w') \<and> b = book"
  using assms
  by (auto simp: migrate_into_book_def Let_def
      split: option.splits prod.splits if_splits answer.splits run.splits)

text \<open>A book that the search finds is not created.\<close>

lemma process_snippet_book_found:
  assumes "snippet_ident s = Some sid"
    and "find_bookstack_book R (get_default (title s) (''Untitled Snippet '' @ sid)) w
           = Done (Some bk) w1"
    and "process_snippet R a ws (SnippetObject s) w = Some (Done (step, r) w')"
  shows "step = BookFound bk"
  using assms
  by (auto simp: process_snippet_def Let_def split: option.splits if_splits run.splits)

subsection \<open>The exit status\<close>




subsection \<open>The concrete remote systems\<close>

text \<open>The requests of \<open>bookstack\<close> and \<open>demo\<close>, and the facts that evaluate a concrete run.\<close>

lemma bookstack_get_file:
  "get_file (bookstack table refused) workspace sid h f w = (map_of table (h, f), w)"
  by (simp add: bookstack_def)

lemma bookstack_get_pages:
  "get_pages (bookstack table refused) book_id n offset w =
     (PagesData (take n (drop offset (stored_pages w))) (Some (int (length w))), w)"
  by (simp add: bookstack_def)

lemma bookstack_post_page:
  "post_page (bookstack table refused) book_id name content w =
     (if name \<in> set refused then (NoResponse, w)
      else (Response (Some (int (length w) + 1)), w @ [(name, content)]))"
  by (simp add: bookstack_def)

lemma bookstack_put_page:
  "put_page (bookstack table refused) pid content summary w = store_put pid content w"
  by (simp add: bookstack_def)

lemma demo_get_file:
  "get_file (demo rf L) = get_file (bookstack contents rf)"
  by (simp add: demo_def)

lemma demo_get_pages:
  "get_pages (demo rf L) = get_pages (bookstack contents rf)"
  by (simp add: demo_def)

lemma demo_post_page:
  "post_page (demo rf L) = post_page (bookstack contents rf)"
  by (simp add: demo_def)

lemma demo_put_page:
  "put_page (demo rf L) = put_page (bookstack contents rf)"
  by (simp add: demo_def)

lemma demo_get_commits_page:
  "get_commits_page (demo rf L) = L"
  by (simp add: demo_def)

lemma demo_commits_url:
  "commits_url (demo rf L) workspace sid = ''snippets/'' @ workspace @ ''/'' @ sid @ ''/commits''"
  by (simp add: demo_def bookstack_def offline_def)

lemma demo_get_snippet:
  "get_snippet (demo rf L) workspace sid w = (if sid = ''s1'' then JsonAnswer details else NoAnswer, w)"
  by (simp add: demo_def)

lemma offline_requests:
  "get_snippets_page offline url w = (RequestFailed, w)"
  "get_snippet offline workspace sid w = (NoAnswer, w)"
  by (simp_all add: offline_def)

lemma demo_get_snippets_page:
  "get_snippets_page (demo rf L) url w =
     (if url = ''snippets/ws'' then (ItemsPage [details] None, w) else (RequestFailed, w))"
  by (simp add: demo_def)

lemma demo_snippets_url:
  "snippets_url (demo rf L) workspace = ''snippets/'' @ workspace"
  by (simp add: demo_def bookstack_def offline_def)

lemma demo_get_books:
  "get_books (demo rf L) name w = (JsonAnswer [\<lparr>book_name = Some name, book_ident = 3\<rparr>], w)"
  by (simp add: demo_def)

lemma html_for_requests:
  "post_page (html_for name R) book_id n content w =
     (if n = name then (TextResponse ''<html><body id=login>'', w)
      else post_page R book_id n content w)"
  "get_file (html_for name R) = get_file R"
  "get_pages (html_for name R) = get_pages R"
  "put_page (html_for name R) = put_page R"
  "get_commits_page (html_for name R) = get_commits_page R"
  "commits_url (html_for name R) = commits_url R"
  "snippets_url (html_for name R) = snippets_url R"
  "get_snippets_page (html_for name R) = get_snippets_page R"
  "get_snippet (html_for name R) = get_snippet R"
  "get_books (html_for name R) = get_books R"
  by (simp_all add: html_for_def)

lemma page_zero_requests:
  "get_pages (page_zero name R) book_id n offset w =
     (PagesData [\<lparr>page_name = Some name, page_ident = 0\<rparr>] (Some 1), w)"
  "get_file (page_zero name R) = get_file R"
  "post_page (page_zero name R) = post_page R"
  "put_page (page_zero name R) = put_page R"
  by (simp_all add: page_zero_def)

lemmas main_simps =
  demo_get_snippets_page demo_snippets_url demo_get_books
  main_def run_twice_def bitbucket_workspace_def get_bitbucket_snippets_def
  process_snippet_def migrate_into_book_def find_bookstack_book_def
  get_snippet_details_def get_snippet_commits_def current_state_commit_def
  offline_def

lemmas run_simps =
  html_for_requests page_zero_requests text_has_def sublist_Cons_right
  bookstack_get_file bookstack_get_pages bookstack_post_page bookstack_put_page
  demo_get_file demo_get_pages demo_post_page demo_put_page demo_get_commits_page
  demo_commits_url demo_get_snippet offline_requests
  commit_of_def c1_def c2_def c3_def c4_def history_def no_history_def broken_history_def
  details_def contents_def flags_def stored_pages_def store_put_def
  apply_commit_def get_snippet_revision_content_def create_bookstack_page_def
  update_bookstack_page_def truthy_def truthy_str_def initial_cursor_def header_info_def
  commit_info_def get_default_def Let_def
  process_file_def find_bookstack_page_def find_page_loop.simps
  get_paginated_results_def paginate.simps

section \<open>The claims\<close>

subsection \<open>C1: a revision of an existing page is compared and, if it differs, written\<close>

text \<open>
  Claim C1. For every revision of the replay loop whose content was fetched: if the page
  identifier is set and this revision is not the one that created the page, then no
  destination call is made when the composed payload equals the previously recorded
  payload, and an update call is issued for that revision when it differs.

  The loop does this in its second branch, which it enters only while
  \<^verbatim>\<open>processed_first_commit_for_page\<close> is false. The create branch sets that flag, and
  the branch that clears it is an \<^verbatim>\<open>elif\<close> of the same chain, so it is the next fetched
  revision that clears it, and that revision is neither compared nor written. The run
  below: no page yet, two commits with the contents \<open>a\<close> and \<open>b\<close>, a destination that
  accepts every call. At the second commit the page identifier is set, the revision is
  not the one that created the page and its payload differs from the recorded one, and
  the loop makes no call: the page keeps the content of the first commit.
\<close>

theorem revision_after_create_is_not_written:
  "replay (bookstack [((hash c1, ''f''), ''a''), ((hash c2, ''f''), ''b'')] [])
      ''ws'' ''s1'' (Some 3) ''f'' [c1, c2] (initial_cursor None) [] =
     ([(c1, CreateCall (Some 3) ''f'' (header_info c1 @ ''a'') (commit_info c1)
              (Response (Some 1))),
       (c2, ResetFlag)],
      \<lparr>page_id = Some 1, page_created_in_this_run = True,
       processed_first_commit_for_page = False,
       previous_page_content = Some (header_info c2 @ ''b'')\<rparr>,
      [(''f'', header_info c1 @ ''a'')])"
  by (simp add: run_simps)

subsection \<open>C2: the revision after the create makes no call\<close>

text \<open>
  Claim C2. In every commit sequence, the revision processed immediately after the one
  that successfully created the page issues no destination call, neither create nor
  update, even when its payload differs from the created one; its payload is recorded as
  the previous payload for the next comparison.

  The sequence is taken apart at the create: an iteration from any loop state that makes
  a successful create call, then any commits whose content cannot be fetched (the loop
  skips them), then a commit \<open>c'\<close> whose content is fetched. The iteration of \<open>c'\<close> goes
  on, makes no call, and records the payload of \<open>c'\<close>.
\<close>

theorem revision_after_create_makes_no_call:
  assumes "apply_commit R ws sid b f c cur w = (a, cur1, w1, go)"
    and "is_create a" and "\<not> is_failed_create a"
    and "replay R ws sid b f absent cur1 w1 = (log, cur2, w2)"
    and "\<forall>e\<in>set log. snd e = SkipRevision"
    and "get_snippet_revision_content R ws sid (hash c') f w2 = (Some content, w3)"
  shows "\<exists>a' cur3. apply_commit R ws sid b f c' cur2 w2 = (a', cur3, w3, True)
           \<and> \<not> is_call a' \<and> previous_page_content cur3 = Some (header_info c' @ content)"
proof -
  from apply_commit_created[OF assms(1-3)]
  have "page_created_in_this_run cur1" "processed_first_commit_for_page cur1" by simp_all
  moreover from replay_all_skipped[OF assms(4,5)] have "cur2 = cur1" by simp
  ultimately show ?thesis using apply_commit_after_create[OF assms(6)] by simp
qed

theorem revision_after_create_makes_no_call_witness:
  "apply_commit (bookstack [((hash c1, ''f''), ''a''), ((hash c3, ''f''), ''b'')] [])
      ''ws'' ''s1'' (Some 3) ''f'' c1 (initial_cursor None) [] =
     (CreateCall (Some 3) ''f'' (header_info c1 @ ''a'') (commit_info c1) (Response (Some 1)),
      \<lparr>page_id = Some 1, page_created_in_this_run = True,
       processed_first_commit_for_page = True,
       previous_page_content = Some (header_info c1 @ ''a'')\<rparr>,
      [(''f'', header_info c1 @ ''a'')], True)
   \<and> replay (bookstack [((hash c1, ''f''), ''a''), ((hash c3, ''f''), ''b'')] [])
        ''ws'' ''s1'' (Some 3) ''f'' [c2]
        \<lparr>page_id = Some 1, page_created_in_this_run = True,
         processed_first_commit_for_page = True,
         previous_page_content = Some (header_info c1 @ ''a'')\<rparr>
        [(''f'', header_info c1 @ ''a'')] =
      ([(c2, SkipRevision)],
       \<lparr>page_id = Some 1, page_created_in_this_run = True,
        processed_first_commit_for_page = True,
        previous_page_content = Some (header_info c1 @ ''a'')\<rparr>,
       [(''f'', header_info c1 @ ''a'')])
   \<and> (\<exists>a' cur3.
         apply_commit (bookstack [((hash c1, ''f''), ''a''), ((hash c3, ''f''), ''b'')] [])
           ''ws'' ''s1'' (Some 3) ''f'' c3
           \<lparr>page_id = Some 1, page_created_in_this_run = True,
            processed_first_commit_for_page = True,
            previous_page_content = Some (header_info c1 @ ''a'')\<rparr>
           [(''f'', header_info c1 @ ''a'')] =
           (a', cur3, [(''f'', header_info c1 @ ''a'')], True)
         \<and> \<not> is_call a' \<and> previous_page_content cur3 = Some (header_info c3 @ ''b''))"
proof -
  let ?R = "bookstack [((hash c1, ''f''), ''a''), ((hash c3, ''f''), ''b'')] []"
  let ?cur1 = "\<lparr>page_id = Some 1, page_created_in_this_run = True,
       processed_first_commit_for_page = True,
       previous_page_content = Some (header_info c1 @ ''a'')\<rparr>"
  let ?w1 = "[(''f'', header_info c1 @ ''a'')]"
  let ?a = "CreateCall (Some 3) ''f'' (header_info c1 @ ''a'') (commit_info c1) (Response (Some 1))"
  have h1: "apply_commit ?R ''ws'' ''s1'' (Some 3) ''f'' c1 (initial_cursor None) [] = (?a, ?cur1, ?w1, True)"
    by (simp add: run_simps)
  have h2: "is_create ?a" and h3: "\<not> is_failed_create ?a" by simp_all
  have h4: "replay ?R ''ws'' ''s1'' (Some 3) ''f'' [c2] ?cur1 ?w1 = ([(c2, SkipRevision)], ?cur1, ?w1)"
    by (simp add: run_simps)
  have h5: "\<forall>e\<in>set [(c2, SkipRevision)]. snd e = SkipRevision" by simp
  have h6: "get_snippet_revision_content ?R ''ws'' ''s1'' (hash c3) ''f'' ?w1 = (Some ''b'', ?w1)"
    by (simp add: run_simps)
  from revision_after_create_makes_no_call[OF h1 h2 h3 h4 h5 h6] h1 h4
  show ?thesis by blast
qed

subsection \<open>C3: the payload carries the provenance of the commit\<close>

text \<open>
  Claim C3. The payload sent to the destination is the file content prefixed with a
  header derived from the commit (short hash, author, timestamp, message), so that two
  consecutive revisions with the same file content and different commit metadata give
  different payloads, and the second one still produces an update call.

  In the code the header is the constant \<^verbatim>\<open>f"\n\n"\<close>, under the comment
  \<^verbatim>\<open>Prepend Bitbucket info to the content\<close>: \<^verbatim>\<open>commit_info\<close> goes into the update
  summary only. The run below: an existing page, two commits by different authors (their
  \<^verbatim>\<open>commit_info\<close> differ) with the same file content. The first is written, the second
  is found unchanged and is not written.
\<close>

theorem payload_ignores_commit_metadata:
  "commit_info c1 \<noteq> commit_info c2
   \<and> replay (bookstack [((hash c1, ''f''), ''same''), ((hash c2, ''f''), ''same'')] [])
        ''ws'' ''s1'' (Some 3) ''f'' [c1, c2] (initial_cursor (Some 1)) [(''f'', ''old'')] =
       ([(c1, UpdateCall (Some 1) (header_info c1 @ ''same'') (commit_info c1)
                (Response (Some 1))),
         (c2, NoChange)],
        \<lparr>page_id = Some 1, page_created_in_this_run = False,
         processed_first_commit_for_page = False,
         previous_page_content = Some (header_info c2 @ ''same'')\<rparr>,
        [(''f'', header_info c1 @ ''same'')])"
  by (simp add: run_simps)

subsection \<open>C4: at most one page is created for a file\<close>




subsection \<open>C5: a second run\<close>

text \<open>
  Claim C5, as amended. A second run against an unchanged source issues no create call:
  a book that the search finds is not created, and for a page that the search finds with
  a true identifier no create call is issued. But it issues update calls: in each file
  that is replayed, the first revision whose content is fetched is written by an update
  call, whatever the destination holds, because the previous payload of the loop starts
  as \<^verbatim>\<open>None\<close>; and each later revision is written by an update call exactly when its
  payload differs from that of the revision fetched before it in the same run. So the
  second run replays the history as update calls, and a comparison reports the content
  as unchanged only where two consecutive revisions have the same payload.

  The first part is about the body of the loop over the snippets, when it returns: its
  book is the one found, and no create call was made for it. The second part is about
  the body of the loop over the files, for a file that is not skipped for
  \<^verbatim>\<open>--skip-existing-pages\<close> (a skipped file makes no call): it returns, and \<open>rerun_log\<close>
  says what its log is, entry by entry, the content of the file at commit \<open>c\<close> being
  \<open>content c\<close> in every state of the remote side.
\<close>

theorem second_run_replays_history:
  "(snippet_ident s = Some sid
    \<and> find_bookstack_book R (get_default (title s) (''Untitled Snippet '' @ sid)) v = Done (Some bk) v1
    \<and> process_snippet R a ws (SnippetObject s) v = Some (Done (step, r) v2)
    \<longrightarrow> step = BookFound bk)
   \<and> (find_bookstack_page R b f w = Some (Done (Some p) w1) \<and> page_ident p \<noteq> 0
      \<and> \<not> skip_existing_pages a
      \<and> (\<forall>c\<in>set commits. \<forall>u. fst (get_snippet_revision_content R ws sid (hash c) f u) = content c)
      \<longrightarrow> (\<exists>log cur w'.
             process_file R a ws sid b commits f w = Some (Done (Replayed log cur) w')
             \<and> (\<forall>e\<in>set log. \<not> is_create (snd e))
             \<and> rerun_log (Some (page_ident p)) content None commits log
             \<and> (case first_attempt log of None \<Rightarrow> True | Some act \<Rightarrow> is_update act)))"
proof -
  have book: "step = BookFound bk"
    if "snippet_ident s = Some sid
        \<and> find_bookstack_book R (get_default (title s) (''Untitled Snippet '' @ sid)) v
            = Done (Some bk) v1
        \<and> process_snippet R a ws (SnippetObject s) v = Some (Done (step, r) v2)"
    using that process_snippet_book_found[of s sid R v bk v1 a ws step r v2] by blast
  have page: "\<exists>log cur w'.
             process_file R a ws sid b commits f w = Some (Done (Replayed log cur) w')
             \<and> (\<forall>e\<in>set log. \<not> is_create (snd e))
             \<and> rerun_log (Some (page_ident p)) content None commits log
             \<and> (case first_attempt log of None \<Rightarrow> True | Some act \<Rightarrow> is_update act)"
    if h: "find_bookstack_page R b f w = Some (Done (Some p) w1) \<and> page_ident p \<noteq> 0
      \<and> \<not> skip_existing_pages a
      \<and> (\<forall>c\<in>set commits. \<forall>u. fst (get_snippet_revision_content R ws sid (hash c) f u) = content c)"
  proof -
    let ?cur0 = "initial_cursor (Some (page_ident p))"
    obtain log cur w' where rp: "replay R ws sid b f commits ?cur0 w1 = (log, cur, w')"
      by (cases "replay R ws sid b f commits ?cur0 w1") auto
    from h have t: "truthy (page_id ?cur0)" by (simp add: initial_cursor_def truthy_def)
    have n: "\<not> processed_first_commit_for_page ?cur0"
      and e: "previous_page_content ?cur0 = None"
      and i: "page_id ?cur0 = Some (page_ident p)"
      by (simp_all add: initial_cursor_def)
    from h have st: "\<forall>c\<in>set commits. \<forall>u.
        fst (get_snippet_revision_content R ws sid (hash c) f u) = content c" by simp
    from replay_no_create[OF rp] t have nc: "\<forall>e\<in>set log. \<not> is_create (snd e)" by simp
    from replay_no_create_not_raised[OF nc] have nr: "\<not> (\<exists>e\<in>set log. raised (snd e))" by simp
    from h rp nr
    have run: "process_file R a ws sid b commits f w = Some (Done (Replayed log cur) w')"
      by (simp add: process_file_def)
    from replay_rerun[OF rp t n st] e i
    have rl: "rerun_log (Some (page_ident p)) content None commits log" by simp
    from run nc rl replay_existing_first[OF rp t n e] show ?thesis by blast
  qed
  from book page show ?thesis by blast
qed

theorem second_run_replays_history_witness:
  "find_bookstack_book (demo [] (history (ItemsPage [c1] None))) ''demo''
      [(''x'', header_info c1 @ ''one''), (''notes.txt'', header_info c3 @ ''hello'')] =
     Done (Some \<lparr>book_name = Some ''demo'', book_ident = 3\<rparr>)
       [(''x'', header_info c1 @ ''one''), (''notes.txt'', header_info c3 @ ''hello'')]
   \<and> process_snippet (demo [] (history (ItemsPage [c1] None))) (flags False None) ''ws''
        (SnippetObject details)
        [(''x'', header_info c1 @ ''one''), (''notes.txt'', header_info c3 @ ''hello'')] =
       Some (Done (BookFound \<lparr>book_name = Some ''demo'', book_ident = 3\<rparr>,
         Migrated (Some 3) [c1, c2, c3, c4]
          [(''x'', Replayed
              [(c1, UpdateCall (Some 1) (header_info c1 @ ''one'') (commit_info c1)
                      (Response (Some 1))),
               (c2, UpdateCall (Some 1) (header_info c2 @ ''two'') (commit_info c2)
                      (Response (Some 1))),
               (c3, SkipRevision), (c4, SkipRevision)]
              \<lparr>page_id = Some 1, page_created_in_this_run = False,
               processed_first_commit_for_page = False,
               previous_page_content = Some (header_info c2 @ ''two'')\<rparr>),
           (''notes.txt'', Replayed
              [(c1, SkipRevision), (c2, SkipRevision),
               (c3, UpdateCall (Some 2) (header_info c3 @ ''hello'') (commit_info c3)
                      (Response (Some 2))),
               (c4, UpdateCall (Some 2) (header_info c4 @ ''hello world'') (commit_info c4)
                      (Response (Some 2)))]
              \<lparr>page_id = Some 2, page_created_in_this_run = False,
               processed_first_commit_for_page = False,
               previous_page_content = Some (header_info c4 @ ''hello world'')\<rparr>)])
         [(''x'', header_info c2 @ ''two''), (''notes.txt'', header_info c4 @ ''hello world'')])
   \<and> find_bookstack_page (demo [] (history (ItemsPage [c1] None))) (Some 3) ''notes.txt''
        [(''x'', header_info c1 @ ''one''), (''notes.txt'', header_info c3 @ ''hello'')] =
       Some (Done (Some \<lparr>page_name = Some ''notes.txt'', page_ident = 2\<rparr>)
               [(''x'', header_info c1 @ ''one''), (''notes.txt'', header_info c3 @ ''hello'')])
   \<and> process_file (demo [] (history (ItemsPage [c1] None))) (flags False None) ''ws'' ''s1''
        (Some 3) [c1, c2, c3, c4] ''notes.txt''
        [(''x'', header_info c1 @ ''one''), (''notes.txt'', header_info c3 @ ''hello'')] =
       Some (Done (Replayed
          [(c1, SkipRevision), (c2, SkipRevision),
           (c3, UpdateCall (Some 2) (header_info c3 @ ''hello'') (commit_info c3)
                  (Response (Some 2))),
           (c4, UpdateCall (Some 2) (header_info c4 @ ''hello world'') (commit_info c4)
                  (Response (Some 2)))]
          \<lparr>page_id = Some 2, page_created_in_this_run = False,
           processed_first_commit_for_page = False,
           previous_page_content = Some (header_info c4 @ ''hello world'')\<rparr>)
          [(''x'', header_info c1 @ ''one''), (''notes.txt'', header_info c4 @ ''hello world'')])
   \<and> rerun_log (Some 2) (\<lambda>c. map_of contents (hash c, ''notes.txt'')) None [c1, c2, c3, c4]
        [(c1, SkipRevision), (c2, SkipRevision),
         (c3, UpdateCall (Some 2) (header_info c3 @ ''hello'') (commit_info c3)
                (Response (Some 2))),
         (c4, UpdateCall (Some 2) (header_info c4 @ ''hello world'') (commit_info c4)
                (Response (Some 2)))]"
proof -
  let ?R = "demo [] (history (ItemsPage [c1] None))"
  let ?a = "flags False None"
  let ?w = "[(''x'', header_info c1 @ ''one''), (''notes.txt'', header_info c3 @ ''hello'')]"
  let ?w' = "[(''x'', header_info c1 @ ''one''), (''notes.txt'', header_info c4 @ ''hello world'')]"
  let ?w2 = "[(''x'', header_info c2 @ ''two''), (''notes.txt'', header_info c4 @ ''hello world'')]"
  let ?bk = "\<lparr>book_name = Some ''demo'', book_ident = 3\<rparr>"
  let ?p = "\<lparr>page_name = Some ''notes.txt'', page_ident = 2\<rparr>"
  let ?content = "\<lambda>c. map_of contents (hash c, ''notes.txt'')"
  let ?logx = "[(c1, UpdateCall (Some 1) (header_info c1 @ ''one'') (commit_info c1)
                      (Response (Some 1))),
               (c2, UpdateCall (Some 1) (header_info c2 @ ''two'') (commit_info c2)
                      (Response (Some 1))),
               (c3, SkipRevision), (c4, SkipRevision)]"
  let ?curx = "\<lparr>page_id = Some 1, page_created_in_this_run = False,
               processed_first_commit_for_page = False,
               previous_page_content = Some (header_info c2 @ ''two'')\<rparr>"
  let ?log = "[(c1, SkipRevision), (c2, SkipRevision),
           (c3, UpdateCall (Some 2) (header_info c3 @ ''hello'') (commit_info c3)
                  (Response (Some 2))),
           (c4, UpdateCall (Some 2) (header_info c4 @ ''hello world'') (commit_info c4)
                  (Response (Some 2)))]"
  let ?cur = "\<lparr>page_id = Some 2, page_created_in_this_run = False,
           processed_first_commit_for_page = False,
           previous_page_content = Some (header_info c4 @ ''hello world'')\<rparr>"
  let ?r = "Migrated (Some 3) [c1, c2, c3, c4]
              [(''x'', Replayed ?logx ?curx), (''notes.txt'', Replayed ?log ?cur)]"
  have b1: "snippet_ident details = Some ''s1''" by (simp add: details_def)
  have b2: "find_bookstack_book ?R (get_default (title details) (''Untitled Snippet '' @ ''s1'')) ?w
              = Done (Some ?bk) ?w"
    by (simp add: main_simps details_def get_default_def)
  have b2': "find_bookstack_book ?R ''demo'' ?w = Done (Some ?bk) ?w"
    by (simp add: main_simps)
  have b3: "process_snippet ?R ?a ''ws'' (SnippetObject details) ?w = Some (Done (BookFound ?bk, ?r) ?w2)"
    by (simp add: run_simps main_simps)
  have h1: "find_bookstack_page ?R (Some 3) ''notes.txt'' ?w = Some (Done (Some ?p) ?w)"
    by (simp add: run_simps)
  have h2: "page_ident ?p \<noteq> 0" by simp
  have h3: "\<not> skip_existing_pages ?a" by (simp add: flags_def)
  have h4: "\<forall>c\<in>set [c1, c2, c3, c4]. \<forall>u.
      fst (get_snippet_revision_content ?R ''ws'' ''s1'' (hash c) ''notes.txt'' u) = ?content c"
    by (simp add: run_simps)
  have run: "process_file ?R ?a ''ws'' ''s1'' (Some 3) [c1, c2, c3, c4] ''notes.txt'' ?w =
               Some (Done (Replayed ?log ?cur) ?w')"
    by (simp add: run_simps)
  note both = second_run_replays_history[where s = details and sid = "''s1''" and R = ?R
      and v = ?w and bk = ?bk and ?v1.0 = ?w and a = ?a and ws = "''ws''"
      and step = "BookFound ?bk" and r = ?r and ?v2.0 = ?w2 and b = "Some 3"
      and f = "''notes.txt''" and w = ?w and p = ?p and ?w1.0 = ?w
      and commits = "[c1, c2, c3, c4]" and content = ?content]
  from both b1 b2 b3 have "BookFound ?bk = BookFound ?bk" by blast
  from both h1 h2 h3 h4 obtain log cur w' where
    "process_file ?R ?a ''ws'' ''s1'' (Some 3) [c1, c2, c3, c4] ''notes.txt'' ?w
       = Some (Done (Replayed log cur) w')"
    and rl: "rerun_log (Some (page_ident ?p)) ?content None [c1, c2, c3, c4] log"
    by blast
  with run have "log = ?log" by simp
  with rl have rl': "rerun_log (Some 2) ?content None [c1, c2, c3, c4] ?log" by simp
  from b2' b3 h1 run rl' show ?thesis by (intro conjI)
qed

text \<open>
  The claim as written says that a second run against an unchanged source issues no
  update call with changed content, every comparison reporting the content as unchanged.
  Two full runs, the second from the state the first left: the first run creates both
  pages, with the contents \<open>one\<close> and \<open>hello\<close>; the second run, with the book and both
  pages existing, creates nothing, issues four update calls and leaves the contents
  \<open>two\<close> and \<open>hello world\<close>.
\<close>

theorem second_run_counterexample:
  "main (demo [] (history (ItemsPage [c1] None))) (flags False None) [] =
     Some (Done (0,
       [(BookFound \<lparr>book_name = Some ''demo'', book_ident = 3\<rparr>,
         Migrated (Some 3) [c1, c2, c3, c4]
          [(''x'', Replayed
              [(c1, CreateCall (Some 3) ''x'' (header_info c1 @ ''one'') (commit_info c1)
                      (Response (Some 1))),
               (c2, ResetFlag), (c3, SkipRevision), (c4, SkipRevision)]
              \<lparr>page_id = Some 1, page_created_in_this_run = True,
               processed_first_commit_for_page = False,
               previous_page_content = Some (header_info c2 @ ''two'')\<rparr>),
           (''notes.txt'', Replayed
              [(c1, SkipRevision), (c2, SkipRevision),
               (c3, CreateCall (Some 3) ''notes.txt'' (header_info c3 @ ''hello'')
                      (commit_info c3) (Response (Some 2))),
               (c4, ResetFlag)]
              \<lparr>page_id = Some 2, page_created_in_this_run = True,
               processed_first_commit_for_page = False,
               previous_page_content = Some (header_info c4 @ ''hello world'')\<rparr>)])])
       [(''x'', header_info c1 @ ''one''), (''notes.txt'', header_info c3 @ ''hello'')])
   \<and> run_twice (demo [] (history (ItemsPage [c1] None))) (flags False None) [] =
     Some (Done (0,
       [(BookFound \<lparr>book_name = Some ''demo'', book_ident = 3\<rparr>,
         Migrated (Some 3) [c1, c2, c3, c4]
          [(''x'', Replayed
              [(c1, UpdateCall (Some 1) (header_info c1 @ ''one'') (commit_info c1)
                      (Response (Some 1))),
               (c2, UpdateCall (Some 1) (header_info c2 @ ''two'') (commit_info c2)
                      (Response (Some 1))),
               (c3, SkipRevision), (c4, SkipRevision)]
              \<lparr>page_id = Some 1, page_created_in_this_run = False,
               processed_first_commit_for_page = False,
               previous_page_content = Some (header_info c2 @ ''two'')\<rparr>),
           (''notes.txt'', Replayed
              [(c1, SkipRevision), (c2, SkipRevision),
               (c3, UpdateCall (Some 2) (header_info c3 @ ''hello'') (commit_info c3)
                      (Response (Some 2))),
               (c4, UpdateCall (Some 2) (header_info c4 @ ''hello world'') (commit_info c4)
                      (Response (Some 2)))]
              \<lparr>page_id = Some 2, page_created_in_this_run = False,
               processed_first_commit_for_page = False,
               previous_page_content = Some (header_info c4 @ ''hello world'')\<rparr>)])])
       [(''x'', header_info c2 @ ''two''), (''notes.txt'', header_info c4 @ ''hello world'')])"
  by (simp add: run_simps main_simps)

subsection \<open>C6: the writes follow the commits, oldest first\<close>

text \<open>
  Claim C6. For every file, the destination write calls (create or update) are issued in
  the order of the commits, oldest first: no write for a commit happens after a write for
  a later commit, because the commit sequencer returns the fetched list, which is newest
  first, reversed, and the replay loop consumes it in sequence.

  For a snippet that is migrated: the commit sequence is the reverse of what the
  paginated fetcher returned for its history (when that is not empty); and for every
  file that is replayed, the log of the loop, which is in the order of the iterations,
  runs through a prefix of that sequence, the commits with a call are a subsequence of
  it, and every call carries the \<^verbatim>\<open>commit_info\<close> of the commit of its iteration.
\<close>

theorem writes_follow_commit_order:
  assumes "migrate_into_book R a ws sid book w = Some (Done (Migrated b commits rs) w')"
  shows "(\<exists>newest_first w1 w2.
            get_paginated_results (get_commits_page R) (commits_url R ws sid) w1
              = Some (Some newest_first, w2)
            \<and> get_snippet_commits R ws sid w1 = Some (Some (rev newest_first), w2)
            \<and> (newest_first \<noteq> [] \<longrightarrow> commits = rev newest_first))
       \<and> (\<forall>e\<in>set rs. case snd e of
              SkippedExistingPage \<Rightarrow> True
            | Replayed log cur \<Rightarrow>
                prefix (map fst log) commits
                \<and> subseq (map fst (filter (\<lambda>x. is_call (snd x)) log)) commits
                \<and> (\<forall>x\<in>set log. is_call (snd x) \<longrightarrow>
                      call_info (snd x) = Some (commit_info (fst x))))"
proof -
  from migrate_into_book_Migrated[OF assms] obtain d w1 fetched w2 fs where
    sc: "get_snippet_commits R ws sid w1 = Some (Some fetched, w2)"
    and cm: "commits = (if fetched = [] then [current_state_commit d] else fetched)"
    and pf: "process_files R a ws sid book commits fs w2 = Some (Done rs w')"
    by blast
  from get_snippet_commits_Some[OF sc] obtain newest_first where
    pg: "get_paginated_results (get_commits_page R) (commits_url R ws sid) w1
           = Some (Some newest_first, w2)"
    and fr: "fetched = rev newest_first" by blast
  from sc fr cm pg have first: "\<exists>newest_first w1 w2.
            get_paginated_results (get_commits_page R) (commits_url R ws sid) w1
              = Some (Some newest_first, w2)
            \<and> get_snippet_commits R ws sid w1 = Some (Some (rev newest_first), w2)
            \<and> (newest_first \<noteq> [] \<longrightarrow> commits = rev newest_first)"
    by auto
  from process_files_results[OF pf]
  have each: "\<forall>e\<in>set rs. \<exists>w0 w1.
                process_file R a ws sid book commits (fst e) w0 = Some (Done (snd e) w1)"
    by simp
  have "case snd e of
              SkippedExistingPage \<Rightarrow> True
            | Replayed log cur \<Rightarrow>
                prefix (map fst log) commits
                \<and> subseq (map fst (filter (\<lambda>x. is_call (snd x)) log)) commits
                \<and> (\<forall>x\<in>set log. is_call (snd x) \<longrightarrow>
                      call_info (snd x) = Some (commit_info (fst x)))" if "e \<in> set rs" for e
  proof (cases "snd e")
    case SkippedExistingPage
    then show ?thesis by simp
  next
    case (Replayed log cur)
    from each that obtain w0 w3 where
      "process_file R a ws sid book commits (fst e) w0 = Some (Done (snd e) w3)" by blast
    with Replayed have
      "process_file R a ws sid book commits (fst e) w0 = Some (Done (Replayed log cur) w3)"
      by simp
    from process_file_replayed[OF this] obtain target :: "page option" and w4 where
      rp: "replay R ws sid book (fst e) commits
             (initial_cursor (map_option page_ident target)) w4 = (log, cur, w3)"
      by auto
    from replay_prefix[OF rp] subseq_filter_prefix[OF replay_prefix[OF rp]]
      replay_call_info[OF rp] Replayed
    show ?thesis by simp
  qed
  with first show ?thesis by blast
qed

theorem writes_follow_commit_order_witness:
  "migrate_into_book (demo [''x''] (history (ItemsPage [c1] None))) (flags False None)
      ''ws'' ''s1'' (Some 3) [] =
     Some (Done (Migrated (Some 3) [c1, c2, c3, c4]
        [(''x'', Replayed
            [(c1, CreateCall (Some 3) ''x'' (header_info c1 @ ''one'') (commit_info c1)
                    NoResponse)]
            (initial_cursor None)),
         (''notes.txt'', Replayed
            [(c1, SkipRevision), (c2, SkipRevision),
             (c3, CreateCall (Some 3) ''notes.txt'' (header_info c3 @ ''hello'')
                    (commit_info c3) (Response (Some 1))),
             (c4, ResetFlag)]
            \<lparr>page_id = Some 1, page_created_in_this_run = True,
             processed_first_commit_for_page = False,
             previous_page_content = Some (header_info c4 @ ''hello world'')\<rparr>)])
        [(''notes.txt'', header_info c3 @ ''hello'')])
   \<and> get_paginated_results (history (ItemsPage [c1] None)) ''snippets/ws/s1/commits'' [] =
       Some (Some [c4, c3, c2, c1], [])
   \<and> subseq [c3] [c1, c2, c3, c4]"
proof -
  let ?R = "demo [''x''] (history (ItemsPage [c1] None))"
  let ?logn = "[(c1, SkipRevision), (c2, SkipRevision),
             (c3, CreateCall (Some 3) ''notes.txt'' (header_info c3 @ ''hello'')
                    (commit_info c3) (Response (Some 1))),
             (c4, ResetFlag)]"
  let ?curn = "\<lparr>page_id = Some 1, page_created_in_this_run = True,
             processed_first_commit_for_page = False,
             previous_page_content = Some (header_info c4 @ ''hello world'')\<rparr>"
  let ?rs = "[(''x'', Replayed
            [(c1, CreateCall (Some 3) ''x'' (header_info c1 @ ''one'') (commit_info c1)
                    NoResponse)]
            (initial_cursor None)),
         (''notes.txt'', Replayed ?logn ?curn)]"
  have run: "migrate_into_book ?R (flags False None) ''ws'' ''s1'' (Some 3) [] =
     Some (Done (Migrated (Some 3) [c1, c2, c3, c4] ?rs)
             [(''notes.txt'', header_info c3 @ ''hello'')])"
    by (simp add: run_simps main_simps)
  have pg: "get_paginated_results (history (ItemsPage [c1] None)) ''snippets/ws/s1/commits'' [] =
       Some (Some [c4, c3, c2, c1], [])"
    by (simp add: run_simps)
  from writes_follow_commit_order[OF run]
  have "\<forall>e\<in>set ?rs. case snd e of
              SkippedExistingPage \<Rightarrow> True
            | Replayed log cur \<Rightarrow>
                prefix (map fst log) [c1, c2, c3, c4]
                \<and> subseq (map fst (filter (\<lambda>x. is_call (snd x)) log)) [c1, c2, c3, c4]
                \<and> (\<forall>x\<in>set log. is_call (snd x) \<longrightarrow>
                      call_info (snd x) = Some (commit_info (fst x)))"
    by (rule conjunct2)
  then have "subseq (map fst (filter (\<lambda>x. is_call (snd x)) ?logn)) [c1, c2, c3, c4]"
    by simp
  then have "subseq [c3] [c1, c2, c3, c4]" by (simp add: is_call_def)
  with run pg show ?thesis by simp
qed

subsection \<open>C7: an empty history\<close>

text \<open>
  Claim C7, as amended. If the commit history of a snippet is fetched and has no commit,
  the run proceeds with exactly one made-up commit, whose hash is \<open>HEAD\<close> and whose
  date is the \<^verbatim>\<open>updated_on\<close> of the snippet (\<open>N/A\<close> when the snippet has none); every
  file of the snippet is then either skipped because its page exists and
  \<^verbatim>\<open>--skip-existing-pages\<close> is set, or replays exactly that one revision. If the fetch
  fails, the snippet is skipped: no file is processed. This is for the loop over the
  files when it returns; an exception that leaves it ends the run, and the files after it
  are not processed.

  The hypotheses are the steps of the loop body before the history is fetched: the book
  identifier is a true value and the snippet details list at least one file.
\<close>

theorem empty_history_is_replaced_by_current_state:
  assumes "truthy book_id"
    and "get_snippet_details R ws sid w = (JsonAnswer d, w1)"
    and "files d = Some fs" and "fs \<noteq> []"
  shows "(get_snippet_commits R ws sid w1 = Some (None, w2) \<longrightarrow>
            migrate_into_book R a ws sid book_id w = Some (Done CommitsFetchFailed w2))
       \<and> (get_snippet_commits R ws sid w1 = Some (Some [], w2) \<longrightarrow>
            hash (current_state_commit d) = ''HEAD''
            \<and> date (current_state_commit d) = Some (get_default (updated_on d) ''N/A'')
            \<and> migrate_into_book R a ws sid book_id w =
                (case process_files R a ws sid book_id [current_state_commit d] fs w2 of
                   None \<Rightarrow> None
                 | Some (Crash e w3) \<Rightarrow> Some (Crash e w3)
                 | Some (Done rs w3) \<Rightarrow>
                     Some (Done (Migrated book_id [current_state_commit d] rs) w3))
            \<and> (\<forall>rs w3.
                 process_files R a ws sid book_id [current_state_commit d] fs w2
                   = Some (Done rs w3)
                 \<longrightarrow> map fst rs = fs \<and>
                   (\<forall>e\<in>set rs. snd e = SkippedExistingPage
                      \<or> (\<exists>act cur. snd e = Replayed [(current_state_commit d, act)] cur))))"
  using assms process_files_single_commit[of R a ws sid book_id "current_state_commit d" fs w2]
  by (auto simp: migrate_into_book_def current_state_commit_def
      split: option.splits prod.splits run.splits)

theorem empty_history_is_replaced_by_current_state_witness:
  "truthy (Some 3)
   \<and> get_snippet_details (demo [] no_history) ''ws'' ''s1'' [] = (JsonAnswer details, [])
   \<and> files details = Some [''x'', ''notes.txt'']
   \<and> get_snippet_commits (demo [] no_history) ''ws'' ''s1'' [] = Some (Some [], [])
   \<and> current_state_commit details =
       \<lparr>hash = ''HEAD'', date = Some ''2024-06-01'', message = Some ''Current state'',
        author_raw = Some ''N/A''\<rparr>
   \<and> migrate_into_book (demo [] no_history) (flags False None) ''ws'' ''s1'' (Some 3) [] =
       Some (Done (Migrated (Some 3) [current_state_commit details]
          [(''x'', Replayed
              [(current_state_commit details,
                CreateCall (Some 3) ''x'' (header_info (current_state_commit details) @ ''two'')
                  (commit_info (current_state_commit details)) (Response (Some 1)))]
              \<lparr>page_id = Some 1, page_created_in_this_run = True,
               processed_first_commit_for_page = True,
               previous_page_content =
                 Some (header_info (current_state_commit details) @ ''two'')\<rparr>),
           (''notes.txt'', Replayed
              [(current_state_commit details,
                CreateCall (Some 3) ''notes.txt''
                  (header_info (current_state_commit details) @ ''hello world'')
                  (commit_info (current_state_commit details)) (Response (Some 2)))]
              \<lparr>page_id = Some 2, page_created_in_this_run = True,
               processed_first_commit_for_page = True,
               previous_page_content =
                 Some (header_info (current_state_commit details) @ ''hello world'')\<rparr>)])
          [(''x'', header_info (current_state_commit details) @ ''two''),
           (''notes.txt'', header_info (current_state_commit details) @ ''hello world'')])
   \<and> get_snippet_commits (demo [] broken_history) ''ws'' ''s1'' [] = Some (None, [])
   \<and> migrate_into_book (demo [] broken_history) (flags False None) ''ws'' ''s1'' (Some 3) [] =
       Some (Done CommitsFetchFailed [])"
proof -
  have h1: "truthy (Some 3)" by (simp add: truthy_def)
  have h2: "get_snippet_details (demo [] no_history) ''ws'' ''s1'' [] = (JsonAnswer details, [])"
    and h2': "get_snippet_details (demo [] broken_history) ''ws'' ''s1'' [] =
                (JsonAnswer details, [])"
    by (simp_all add: run_simps main_simps)
  have h3: "files details = Some [''x'', ''notes.txt'']" by (simp add: details_def)
  have h4: "[''x'', ''notes.txt''] \<noteq> []" by simp
  have e: "get_snippet_commits (demo [] no_history) ''ws'' ''s1'' [] = Some (Some [], [])"
    and f: "get_snippet_commits (demo [] broken_history) ''ws'' ''s1'' [] = Some (None, [])"
    by (simp_all add: run_simps main_simps)
  from empty_history_is_replaced_by_current_state[OF h1 h2' h3 h4, of "[]" "flags False None"] f
  have failed: "migrate_into_book (demo [] broken_history) (flags False None) ''ws'' ''s1''
      (Some 3) [] = Some (Done CommitsFetchFailed [])" by blast
  from empty_history_is_replaced_by_current_state[OF h1 h2 h3 h4, of "[]" "flags False None"] e
  have "hash (current_state_commit details) = ''HEAD''" by blast
  have run: "migrate_into_book (demo [] no_history) (flags False None) ''ws'' ''s1'' (Some 3) [] =
       Some (Done (Migrated (Some 3) [current_state_commit details]
          [(''x'', Replayed
              [(current_state_commit details,
                CreateCall (Some 3) ''x'' (header_info (current_state_commit details) @ ''two'')
                  (commit_info (current_state_commit details)) (Response (Some 1)))]
              \<lparr>page_id = Some 1, page_created_in_this_run = True,
               processed_first_commit_for_page = True,
               previous_page_content =
                 Some (header_info (current_state_commit details) @ ''two'')\<rparr>),
           (''notes.txt'', Replayed
              [(current_state_commit details,
                CreateCall (Some 3) ''notes.txt''
                  (header_info (current_state_commit details) @ ''hello world'')
                  (commit_info (current_state_commit details)) (Response (Some 2)))]
              \<lparr>page_id = Some 2, page_created_in_this_run = True,
               processed_first_commit_for_page = True,
               previous_page_content =
                 Some (header_info (current_state_commit details) @ ''hello world'')\<rparr>)])
          [(''x'', header_info (current_state_commit details) @ ''two''),
           (''notes.txt'', header_info (current_state_commit details) @ ''hello world'')])"
    by (simp add: run_simps main_simps)
  have cs: "current_state_commit details =
       \<lparr>hash = ''HEAD'', date = Some ''2024-06-01'', message = Some ''Current state'',
        author_raw = Some ''N/A''\<rparr>"
    by (simp add: current_state_commit_def details_def get_default_def)
  from h1 h2 h3 e cs run f failed show ?thesis by (intro conjI)
qed

text \<open>
  The claim as written says that every file of the snippet replays at least one
  revision. With \<^verbatim>\<open>--skip-existing-pages\<close> and both pages in the destination, the
  history being empty, both files are skipped and no revision is replayed.
\<close>

theorem empty_history_skipped_file_counterexample:
  "get_snippet_commits (demo [] no_history) ''ws'' ''s1''
      [(''x'', ''old''), (''notes.txt'', ''old'')] =
     Some (Some [], [(''x'', ''old''), (''notes.txt'', ''old'')])
   \<and> migrate_into_book (demo [] no_history) (flags True None) ''ws'' ''s1'' (Some 3)
        [(''x'', ''old''), (''notes.txt'', ''old'')] =
       Some (Done (Migrated (Some 3) [current_state_commit details]
                     [(''x'', SkippedExistingPage), (''notes.txt'', SkippedExistingPage)])
               [(''x'', ''old''), (''notes.txt'', ''old'')])"
  by (simp add: run_simps main_simps)

subsection \<open>C8: the three outcomes of a paginated fetch\<close>

text \<open>
  Claim C8. If a page request fails, the fetcher returns the failure value and nothing
  of what the earlier pages brought; if an answer is well formed and lacks the items
  key, the fetcher stops and returns exactly the items accumulated so far; otherwise it
  returns the concatenation of the batches of all pages, in the order of the answers.

  The pages \<open>ps\<close> are served first. Then: the next request fails; or its answer has no
  items key; or there is no next URL (\<^verbatim>\<open>next\<close> is missing, \<^verbatim>\<open>None\<close> or empty).
  In each case the fetcher returns, and returns what the claim says.
\<close>

theorem paginated_fetch_outcomes:
  assumes "pages_served request (Some url) w ps nxt w1"
  shows "(\<forall>u w2. nxt = Some u \<and> u \<noteq> [] \<and> request u w1 = (RequestFailed, w2) \<longrightarrow>
            get_paginated_results request url w = Some (None, w2))
       \<and> (\<forall>u w2. nxt = Some u \<and> u \<noteq> [] \<and> request u w1 = (NoItemsKey, w2) \<longrightarrow>
            get_paginated_results request url w = Some (Some (concat (map fst ps)), w2))
       \<and> (\<not> truthy_str nxt \<longrightarrow>
            get_paginated_results request url w = Some (Some (concat (map fst ps)), w1))"
proof -
  have eq: "get_paginated_results request url w = paginate request nxt (concat (map fst ps)) w1"
    unfolding get_paginated_results_def using paginate_pages_served[OF assms, of "[]"] by simp
  show ?thesis
    unfolding eq by (auto simp: paginate_failed paginate_no_items paginate_stop)
qed

theorem paginated_fetch_outcomes_witness:
  "pages_served (history RequestFailed) (Some ''snippets/ws/s1/commits'') []
      [([c4, c3], Some ''page2''), ([c2], Some ''page3'')] (Some ''page3'') []
   \<and> get_paginated_results (history RequestFailed) ''snippets/ws/s1/commits'' [] =
       Some (None, [])
   \<and> pages_served (history NoItemsKey) (Some ''snippets/ws/s1/commits'') []
        [([c4, c3], Some ''page2''), ([c2], Some ''page3'')] (Some ''page3'') []
   \<and> get_paginated_results (history NoItemsKey) ''snippets/ws/s1/commits'' [] =
       Some (Some [c4, c3, c2], [])
   \<and> pages_served (history (ItemsPage [c1] None)) (Some ''snippets/ws/s1/commits'') []
        [([c4, c3], Some ''page2''), ([c2], Some ''page3''), ([c1], None)] None []
   \<and> get_paginated_results (history (ItemsPage [c1] None)) ''snippets/ws/s1/commits'' [] =
       Some (Some [c4, c3, c2, c1], [])"
proof -
  let ?two = "[([c4, c3], Some ''page2''), ([c2], Some ''page3'')]"
  have s1: "pages_served (history RequestFailed) (Some ''snippets/ws/s1/commits'') []
      ?two (Some ''page3'') []"
    and s2: "pages_served (history NoItemsKey) (Some ''snippets/ws/s1/commits'') []
      ?two (Some ''page3'') []"
    and s3: "pages_served (history (ItemsPage [c1] None)) (Some ''snippets/ws/s1/commits'') []
      (?two @ [([c1], None)]) None []"
    by (simp_all add: history_def)
  have r1: "history RequestFailed ''page3'' [] = (RequestFailed, [])"
    and r2: "history NoItemsKey ''page3'' [] = (NoItemsKey, [])"
    by (simp_all add: history_def)
  from paginated_fetch_outcomes[OF s1] r1
  have a: "get_paginated_results (history RequestFailed) ''snippets/ws/s1/commits'' [] =
       Some (None, [])" by simp
  from paginated_fetch_outcomes[OF s2] r2
  have b: "get_paginated_results (history NoItemsKey) ''snippets/ws/s1/commits'' [] =
       Some (Some [c4, c3, c2], [])" by simp
  from paginated_fetch_outcomes[OF s3]
  have c: "get_paginated_results (history (ItemsPage [c1] None)) ''snippets/ws/s1/commits'' [] =
       Some (Some [c4, c3, c2, c1], [])" by (simp add: truthy_str_def)
  from s1 a s2 b s3 c show ?thesis by simp
qed

subsection \<open>C9: a failed create stops one file only\<close>

text \<open>
  Claim C9. If the create call for a file fails, no further commit is attempted for that
  file (its replay stops and the file is reported as not created), and every other file
  of the snippet is still processed through its own replay; a failed update call does
  not stop the replay of its file.

  This is what the loop does when the answer to the create call is \<^verbatim>\<open>None\<close> or an object
  without \<^verbatim>\<open>id\<close> (\<open>process_files_confined\<close>, \<open>process_files_returns\<close>,
  \<open>apply_commit_update_goes_on\<close>): the second run below, where the destination refuses
  the page \<open>x\<close>, has the failed create as the only entry of the log of \<open>x\<close> and the full
  replay of \<open>notes.txt\<close>. But \<^verbatim>\<open>make_request\<close> returns the body as a string when the
  answer has status 200 and is not JSON, and the test
  \<^verbatim>\<open>created_page and 'id' in created_page\<close> is then a substring test. In the first run
  below the create call for \<open>x\<close> is answered with an HTML page that contains \<open>id\<close>: no
  page was created, \<^verbatim>\<open>created_page['id']\<close> raises \<^verbatim>\<open>TypeError\<close>, which nothing catches,
  and the run ends there, with \<open>notes.txt\<close> not processed and the exit status 1.
\<close>

theorem text_answer_to_create_ends_the_run:
  "process_files (html_for ''x'' (demo [] (history (ItemsPage [c1] None)))) (flags False None)
      ''ws'' ''s1'' (Some 3) [c1, c2, c3, c4] [''x'', ''notes.txt''] [] =
     Some (Crash TypeError [])
   \<and> main (html_for ''x'' (demo [] (history (ItemsPage [c1] None)))) (flags False None) [] =
       Some (Crash TypeError [])
   \<and> exit_status (Crash TypeError [] :: (nat \<times> (book_step \<times> snippet_result) list, store) run) = 1
   \<and> process_files (demo [''x''] (history (ItemsPage [c1] None))) (flags False None)
        ''ws'' ''s1'' (Some 3) [c1, c2, c3, c4] [''x'', ''notes.txt''] [] =
       Some (Done
         [(''x'', Replayed
             [(c1, CreateCall (Some 3) ''x'' (header_info c1 @ ''one'') (commit_info c1)
                     NoResponse)]
             (initial_cursor None)),
          (''notes.txt'', Replayed
             [(c1, SkipRevision), (c2, SkipRevision),
              (c3, CreateCall (Some 3) ''notes.txt'' (header_info c3 @ ''hello'')
                     (commit_info c3) (Response (Some 1))),
              (c4, ResetFlag)]
             \<lparr>page_id = Some 1, page_created_in_this_run = True,
              processed_first_commit_for_page = False,
              previous_page_content = Some (header_info c4 @ ''hello world'')\<rparr>)]
         [(''notes.txt'', header_info c3 @ ''hello'')])"
  by (simp add: run_simps main_simps)

subsection \<open>C10: the exit status\<close>




end
